theory Spec2Isabelle
  imports Complex_Main "HOL-Library.Log_Nat"
begin

section \<open>JavaScript values\<close>

text \<open>
  The backend (\<^verbatim>\<open>src/app-functions/index.js\<close>) works on the values that the JSON body
  parser hands to the route handlers, and on the documents it builds from them. A value
  is undefined (an absent property), null, a boolean, a number, a string, an array or a
  plain object. An object is the list of its own enumerable properties in the order of
  \<^verbatim>\<open>Object.entries\<close>; the first entry of a name is the property. Two more values
  occur only in the documents the handlers build: the write-time sentinel of
  \<^verbatim>\<open>FieldValue.serverTimestamp()\<close>, and a point in time (a Firestore timestamp or the
  ISO string of a date).

  A number is an IEEE-754 double: not-a-number, an infinity, or a finite value, which is
  represented by the rational it denotes. The two zeros are identified; the program never
  divides and never prints a sign of zero. Strings are sequences of code units below 256.
\<close>

datatype jsnum = NaN | PosInf | NegInf | Fin rat

datatype jsval =
    JUndefined
  | JNull
  | JBool bool
  | JNum jsnum
  | JStr string
  | JArr "jsval list"
  | JObj "(string \<times> jsval) list"
  | JServerTimestamp
  | JTimestamp nat
  | JDateString nat

datatype js_error = TypeError | StoreFailure

definition and_then :: "'e + 'a \<Rightarrow> ('a \<Rightarrow> 'e + 'b) \<Rightarrow> 'e + 'b" where
  "and_then m f = (case m of Inl e \<Rightarrow> Inl e | Inr v \<Rightarrow> f v)"

subsection \<open>Rounding to a double\<close>

definition pow2 :: "int \<Rightarrow> rat" where
  "pow2 e = (if 0 \<le> e then 2 ^ nat e else 1 / 2 ^ nat (- e))"

text \<open>The binary exponent \<open>\<lfloor>log\<^sub>2 r\<rfloor>\<close> of a positive rational.\<close>

definition ilog2 :: "rat \<Rightarrow> int" where
  "ilog2 r = (if 1 \<le> r then bitlen \<lfloor>r\<rfloor> - 1 else - bitlen (\<lceil>1 / r\<rceil> - 1))"

definition round_half_even :: "rat \<Rightarrow> int" where
  "round_half_even q =
     (let f = \<lfloor>q\<rfloor>; d = q - of_int f
      in if d < 1 / 2 then f else if 1 / 2 < d then f + 1 else if even f then f else f + 1)"

text \<open>
  Round to nearest, ties to even, with a 53-bit significand, gradual underflow below
  \<open>2\<^sup>-\<^sup>1\<^sup>0\<^sup>2\<^sup>2\<close> and overflow to an infinity from \<open>2\<^sup>1\<^sup>0\<^sup>2\<^sup>4\<close> on.
\<close>

definition fl :: "rat \<Rightarrow> jsnum" where
  "fl r =
     (if r = 0 then Fin 0
      else let u = pow2 (max (ilog2 \<bar>r\<bar>) (- 1022) - 52);
               v = of_int (round_half_even (r / u)) * u
           in if 2 ^ 1024 \<le> \<bar>v\<bar> then (if 0 < r then PosInf else NegInf) else Fin v)"

subsection \<open>Arithmetic\<close>

fun js_add :: "jsnum \<Rightarrow> jsnum \<Rightarrow> jsnum" where
  "js_add NaN _ = NaN"
| "js_add _ NaN = NaN"
| "js_add PosInf NegInf = NaN"
| "js_add NegInf PosInf = NaN"
| "js_add PosInf _ = PosInf"
| "js_add _ PosInf = PosInf"
| "js_add NegInf _ = NegInf"
| "js_add _ NegInf = NegInf"
| "js_add (Fin a) (Fin b) = fl (a + b)"

definition inf_of_sign :: "bool \<Rightarrow> jsnum" where
  "inf_of_sign positive = (if positive then PosInf else NegInf)"

fun js_mul :: "jsnum \<Rightarrow> jsnum \<Rightarrow> jsnum" where
  "js_mul NaN _ = NaN"
| "js_mul _ NaN = NaN"
| "js_mul PosInf PosInf = PosInf"
| "js_mul PosInf NegInf = NegInf"
| "js_mul NegInf PosInf = NegInf"
| "js_mul NegInf NegInf = PosInf"
| "js_mul PosInf (Fin b) = (if b = 0 then NaN else inf_of_sign (0 < b))"
| "js_mul NegInf (Fin b) = (if b = 0 then NaN else inf_of_sign (b < 0))"
| "js_mul (Fin a) PosInf = (if a = 0 then NaN else inf_of_sign (0 < a))"
| "js_mul (Fin a) NegInf = (if a = 0 then NaN else inf_of_sign (a < 0))"
| "js_mul (Fin a) (Fin b) = fl (a * b)"

text \<open>\<^verbatim>\<open>a >= b\<close> on numbers: false as soon as one side is not-a-number.\<close>

fun js_ge :: "jsnum \<Rightarrow> jsnum \<Rightarrow> bool" where
  "js_ge NaN _ = False"
| "js_ge _ NaN = False"
| "js_ge PosInf _ = True"
| "js_ge _ NegInf = True"
| "js_ge NegInf _ = False"
| "js_ge _ PosInf = False"
| "js_ge (Fin a) (Fin b) = (b \<le> a)"

subsection \<open>Truthiness, \<^verbatim>\<open>typeof\<close>, property access\<close>

fun truthy :: "jsval \<Rightarrow> bool" where
  "truthy JUndefined = False"
| "truthy JNull = False"
| "truthy (JBool b) = b"
| "truthy (JNum NaN) = False"
| "truthy (JNum (Fin r)) = (r \<noteq> 0)"
| "truthy (JNum _) = True"
| "truthy (JStr s) = (s \<noteq> [])"
| "truthy _ = True"

fun typeof :: "jsval \<Rightarrow> string" where
  "typeof JUndefined = ''undefined''"
| "typeof (JBool _) = ''boolean''"
| "typeof (JNum _) = ''number''"
| "typeof (JStr _) = ''string''"
| "typeof (JDateString _) = ''string''"
| "typeof _ = ''object''"

text \<open>
  \<^verbatim>\<open>v.name\<close>, and one pattern of a destructuring \<^verbatim>\<open>const { name } = v\<close>: a type error on
  undefined and null, an own property of an object, and undefined otherwise. The
  handlers read the names \<^verbatim>\<open>hostName\<close>, \<^verbatim>\<open>address\<close>, \<^verbatim>\<open>bedrooms\<close>, \<^verbatim>\<open>deepClean\<close>
  and the like, none of which a string, an array or \<^verbatim>\<open>Object.prototype\<close> defines.
\<close>

fun getp :: "jsval \<Rightarrow> string \<Rightarrow> js_error + jsval" where
  "getp JUndefined _ = Inl TypeError"
| "getp JNull _ = Inl TypeError"
| "getp (JObj kvs) k = Inr (case map_of kvs k of None \<Rightarrow> JUndefined | Some v \<Rightarrow> v)"
| "getp _ _ = Inr JUndefined"

text \<open>A destructuring pattern with a default, \<^verbatim>\<open>{ name = d }\<close>: the default replaces undefined only.\<close>

definition getp_default :: "jsval \<Rightarrow> string \<Rightarrow> jsval \<Rightarrow> js_error + jsval" where
  "getp_default v k d = and_then (getp v k) (\<lambda>x. Inr (if x = JUndefined then d else x))"

text \<open>\<^verbatim>\<open>a || b\<close> on values.\<close>

definition js_or :: "jsval \<Rightarrow> jsval \<Rightarrow> jsval" where
  "js_or a b = (if truthy a then a else b)"

subsection \<open>Strings to numbers\<close>

definition is_ws :: "char \<Rightarrow> bool" where
  "is_ws c = (of_char c \<in> {9, 10, 11, 12, 13, 32, 160 :: nat})"

definition trim :: "string \<Rightarrow> string" where
  "trim s = rev (dropWhile is_ws (rev (dropWhile is_ws s)))"

definition digit_of :: "char \<Rightarrow> nat option" where
  "digit_of c =
     (let n = of_char c :: nat
      in if 48 \<le> n \<and> n \<le> 57 then Some (n - 48)
         else if 97 \<le> n \<and> n \<le> 102 then Some (n - 87)
         else if 65 \<le> n \<and> n \<le> 70 then Some (n - 55)
         else None)"

text \<open>The value of a string of digits in a base, most significant first; \<open>None\<close> on any other character.\<close>

fun digits_from :: "nat \<Rightarrow> nat \<Rightarrow> string \<Rightarrow> nat option" where
  "digits_from b acc [] = Some acc"
| "digits_from b acc (c # cs) =
     (case digit_of c of
        None \<Rightarrow> None
      | Some d \<Rightarrow> if d < b then digits_from b (acc * b + d) cs else None)"

definition digits1 :: "nat \<Rightarrow> string \<Rightarrow> nat option" where
  "digits1 b s = (if s = [] then None else digits_from b 0 s)"

definition is_exp_mark :: "char \<Rightarrow> bool" where
  "is_exp_mark c = (c = CHR ''e'' \<or> c = CHR ''E'')"

text \<open>The exponent part after the \<^verbatim>\<open>e\<close>: an optional sign and at least one digit.\<close>

definition exponent_of :: "string \<Rightarrow> int option" where
  "exponent_of s =
     (case s of
        [] \<Rightarrow> None
      | c # cs \<Rightarrow>
          if c = CHR ''-'' then map_option (\<lambda>n. - int n) (digits1 10 cs)
          else if c = CHR ''+'' then map_option int (digits1 10 cs)
          else map_option int (digits1 10 s))"

text \<open>Digits, an optional point and more digits; at least one digit in all.\<close>

definition mantissa_of :: "string \<Rightarrow> rat option" where
  "mantissa_of s =
     (let ip = takeWhile (\<lambda>c. c \<noteq> CHR ''.'') s;
          rest = dropWhile (\<lambda>c. c \<noteq> CHR ''.'') s
      in case rest of
           [] \<Rightarrow> map_option of_nat (digits1 10 ip)
         | _ # fp \<Rightarrow>
             if ip = [] \<and> fp = [] then None
             else (case (digits_from 10 0 ip, digits_from 10 0 fp) of
                     (Some i, Some f) \<Rightarrow> Some (of_nat i + of_nat f / 10 ^ length fp)
                   | _ \<Rightarrow> None))"

definition pow10 :: "int \<Rightarrow> rat" where
  "pow10 e = (if 0 \<le> e then 10 ^ nat e else 1 / 10 ^ nat (- e))"

definition unsigned_decimal :: "string \<Rightarrow> rat option" where
  "unsigned_decimal s =
     (let m = takeWhile (\<lambda>c. \<not> is_exp_mark c) s;
          rest = dropWhile (\<lambda>c. \<not> is_exp_mark c) s
      in case rest of
           [] \<Rightarrow> mantissa_of m
         | _ # x \<Rightarrow>
             (case (mantissa_of m, exponent_of x) of
                (Some q, Some e) \<Rightarrow> Some (q * pow10 e)
              | _ \<Rightarrow> None))"

definition signed_decimal :: "bool \<Rightarrow> string \<Rightarrow> jsnum" where
  "signed_decimal negative s =
     (if s = ''Infinity'' then inf_of_sign (\<not> negative)
      else case unsigned_decimal s of
             None \<Rightarrow> NaN
           | Some q \<Rightarrow> fl (if negative then - q else q))"

definition radix_literal :: "nat \<Rightarrow> string \<Rightarrow> jsnum" where
  "radix_literal b s = (case digits1 b s of None \<Rightarrow> NaN | Some n \<Rightarrow> fl (of_nat n))"

text \<open>
  \<^verbatim>\<open>Number(s)\<close> for a string: white space is trimmed; the empty string is 0; then a
  hexadecimal, octal or binary literal without sign, or a signed decimal literal or
  \<^verbatim>\<open>Infinity\<close>; anything else is not-a-number.
\<close>

definition StringToNumber :: "string \<Rightarrow> jsnum" where
  "StringToNumber s =
     (let t = trim s
      in case t of
           [] \<Rightarrow> Fin 0
         | [c] \<Rightarrow> signed_decimal False t
         | c # d # cs \<Rightarrow>
             if c = CHR ''0'' \<and> (d = CHR ''x'' \<or> d = CHR ''X'') then radix_literal 16 cs
             else if c = CHR ''0'' \<and> (d = CHR ''o'' \<or> d = CHR ''O'') then radix_literal 8 cs
             else if c = CHR ''0'' \<and> (d = CHR ''b'' \<or> d = CHR ''B'') then radix_literal 2 cs
             else if c = CHR ''-'' then signed_decimal True (d # cs)
             else if c = CHR ''+'' then signed_decimal False (d # cs)
             else signed_decimal False t)"

subsection \<open>Values to numbers\<close>

text \<open>
  Converting an object to a primitive calls its \<^verbatim>\<open>valueOf\<close> and \<^verbatim>\<open>toString\<close>. A parsed
  JSON object inherits both from \<^verbatim>\<open>Object.prototype\<close>, where \<^verbatim>\<open>valueOf\<close> returns the
  object and \<^verbatim>\<open>toString\<close> returns \<^verbatim>\<open>[object Object]\<close>. An own property \<^verbatim>\<open>toString\<close>
  hides the inherited function and, being data, cannot be called: the conversion throws
  a type error. An array is joined with commas, each element converted to a string
  (null and undefined give the empty string).
\<close>

fun to_primitive_throws :: "jsval \<Rightarrow> bool" where
  "to_primitive_throws (JObj kvs) = (''toString'' \<in> set (map fst kvs))"
| "to_primitive_throws (JArr xs) = list_ex to_primitive_throws xs"
| "to_primitive_throws _ = False"

fun number_of :: "jsval \<Rightarrow> jsnum" where
  "number_of JUndefined = NaN"
| "number_of JNull = Fin 0"
| "number_of (JBool b) = (if b then Fin 1 else Fin 0)"
| "number_of (JNum n) = n"
| "number_of (JStr s) = StringToNumber s"
| "number_of (JArr []) = Fin 0"
| "number_of (JArr [JUndefined]) = Fin 0"
| "number_of (JArr [JNull]) = Fin 0"
| "number_of (JArr [JNum n]) = n"
| "number_of (JArr [JStr s]) = StringToNumber s"
| "number_of (JArr [JArr ys]) = number_of (JArr ys)"
| "number_of (JArr _) = NaN"
| "number_of _ = NaN"

text \<open>\<^verbatim>\<open>Number(v)\<close>.\<close>

definition ToNumber :: "jsval \<Rightarrow> js_error + jsnum" where
  "ToNumber v = (if to_primitive_throws v then Inl TypeError else Inr (number_of v))"

text \<open>\<^verbatim>\<open>n || 0\<close> on a number: not-a-number and zero are falsy.\<close>

definition or_zero :: "jsnum \<Rightarrow> jsnum" where
  "or_zero n = (if truthy (JNum n) then n else Fin 0)"

section \<open>Pricing\<close>

definition PRICING_base :: jsnum where "PRICING_base = Fin 85"
definition PRICING_perBedroom :: jsnum where "PRICING_perBedroom = Fin 20"
definition PRICING_perBathroom :: jsnum where "PRICING_perBathroom = Fin 15"
definition PRICING_deepClean :: jsnum where "PRICING_deepClean = Fin 90"
definition PRICING_linenAddon :: jsnum where "PRICING_linenAddon = Fin 35"
definition PRICING_linenStandalone :: jsnum where "PRICING_linenStandalone = Fin 45"
definition PRICING_currency :: string where "PRICING_currency = ''AUD''"

text \<open>
  \<^verbatim>\<open>computeTurnoverPrice({ bedrooms = 0, bathrooms = 0, addOns = {} })\<close>: first the body
  of the function, on the three parameters, then the function on its argument object,
  whose destructuring binds them.
\<close>

definition turnover_price :: "jsval \<Rightarrow> jsval \<Rightarrow> jsval \<Rightarrow> js_error + jsval" where
  "turnover_price bedrooms bathrooms addOns =
     and_then (getp addOns ''deepClean'') (\<lambda>dc.
     and_then (getp addOns ''premiumLinen'') (\<lambda>pl.
     and_then (ToNumber bedrooms) (\<lambda>nbed.
     and_then (ToNumber bathrooms) (\<lambda>nbath.
       let deep = truthy dc;
           linen = truthy pl;
           base = PRICING_base;
           bedroomsCost = js_mul (or_zero nbed) PRICING_perBedroom;
           bathroomsCost = js_mul (or_zero nbath) PRICING_perBathroom;
           deepCost = (if deep then PRICING_deepClean else Fin 0);
           linenCost = (if linen then PRICING_linenAddon else Fin 0);
           total = js_add (js_add (js_add (js_add base bedroomsCost) bathroomsCost) deepCost) linenCost
       in Inr (JObj
            [(''total'', JNum total),
             (''breakdown'', JObj
                [(''base'', JNum base),
                 (''bedroomsCost'', JNum bedroomsCost),
                 (''bathroomsCost'', JNum bathroomsCost),
                 (''deepClean'', JNum deepCost),
                 (''premiumLinen'', JNum linenCost)]),
             (''currency'', JStr PRICING_currency)])))))"

definition computeTurnoverPrice :: "jsval \<Rightarrow> js_error + jsval" where
  "computeTurnoverPrice arg =
     and_then (getp_default arg ''bedrooms'' (JNum (Fin 0))) (\<lambda>bedrooms.
     and_then (getp_default arg ''bathrooms'' (JNum (Fin 0))) (\<lambda>bathrooms.
     and_then (getp_default arg ''addOns'' (JObj [])) (\<lambda>addOns.
       turnover_price bedrooms bathrooms addOns)))"

subsection \<open>Field guards\<close>

definition isNonEmptyString :: "jsval \<Rightarrow> bool" where
  "isNonEmptyString v = (case v of JStr s \<Rightarrow> 0 < length (trim s) | _ \<Rightarrow> False)"

text \<open>\<^verbatim>\<open>Number.isInteger\<close>: a number that is finite and has no fractional part.\<close>

definition Number_isInteger :: "jsval \<Rightarrow> bool" where
  "Number_isInteger v = (case v of JNum (Fin r) \<Rightarrow> of_int \<lfloor>r\<rfloor> = r | _ \<Rightarrow> False)"

definition isPositiveInt :: "jsval \<Rightarrow> bool" where
  "isPositiveInt v =
     (Number_isInteger v \<and> (case v of JNum n \<Rightarrow> js_ge n (Fin 0) | _ \<Rightarrow> False))"


section \<open>Responses and the document store\<close>

record response =
  status :: nat
  body :: jsval

text \<open>
  A handler leaves its straight-line code either by returning a response early or by
  throwing into its \<^verbatim>\<open>catch\<close> block.
\<close>

datatype exit = Respond response | Throw js_error

definition raise :: "js_error + 'a \<Rightarrow> exit + 'a" where
  "raise m = (case m of Inl e \<Rightarrow> Inl (Throw e) | Inr v \<Rightarrow> Inr v)"

definition sendError :: "nat \<Rightarrow> string \<Rightarrow> response" where
  "sendError code message =
     \<lparr>status = code, body = JObj [(''ok'', JBool False), (''error'', JStr message)]\<rparr>"

text \<open>\<^verbatim>\<open>if (!ok) return r;\<close>\<close>

definition unless :: "bool \<Rightarrow> response \<Rightarrow> exit + unit" where
  "unless ok r = (if ok then Inr () else Inl (Respond r))"

text \<open>\<^verbatim>\<open>String(v)\<close> of a value that a guard has already found to be a string.\<close>

definition String_of :: "jsval \<Rightarrow> string" where
  "String_of v = (case v of JStr s \<Rightarrow> s | _ \<Rightarrow> [])"

text \<open>\<^verbatim>\<open>isNonEmptyString(v) ? String(v).trim() : null\<close>\<close>

definition trimmed_or_null :: "jsval \<Rightarrow> jsval" where
  "trimmed_or_null v = (if isNonEmptyString v then JStr (trim (String_of v)) else JNull)"

text \<open>Assignment to a property, and the spread of an object's properties into a literal.\<close>

fun assign :: "string \<Rightarrow> jsval \<Rightarrow> (string \<times> jsval) list \<Rightarrow> (string \<times> jsval) list" where
  "assign k v [] = [(k, v)]"
| "assign k v ((k', v') # kvs) = (if k = k' then (k, v) # kvs else (k', v') # assign k v kvs)"

definition spread :: "(string \<times> jsval) list \<Rightarrow> (string \<times> jsval) list \<Rightarrow> (string \<times> jsval) list" where
  "spread acc kvs = foldl (\<lambda>a (k, v). assign k v a) acc kvs"

datatype store_call = Add string | Get string string | Update string string

text \<open>
  The process and the Firestore database behind \<^verbatim>\<open>db\<close>. A collection maps document ids
  to documents. What the program cannot decide is read from the world: the id the client
  library generates for the next new document, whether the next call to the store fails,
  the time at which the server commits a write, what the process clock shows at the
  next reading, and which timestamp functions the admin SDK offers.
\<close>

record world =
  docs :: "string \<Rightarrow> string \<Rightarrow> jsval option"
  server_time :: nat
  auto_ids :: "nat \<Rightarrow> string"
  ids_made :: nat
  fails_at :: "nat \<Rightarrow> bool"
  calls :: "store_call list"
  has_FieldValue_serverTimestamp :: bool
  has_Timestamp_now :: bool
  clock_at :: "nat \<Rightarrow> nat"
  clock_reads :: nat
  emulator :: bool

text \<open>On a write the server replaces each timestamp sentinel by the commit time.\<close>

fun resolve :: "nat \<Rightarrow> jsval \<Rightarrow> jsval" where
  "resolve t JServerTimestamp = JTimestamp t"
| "resolve t (JObj kvs) = JObj (map (\<lambda>kv. (fst kv, resolve t (snd kv))) kvs)"
| "resolve t v = v"

definition called :: "store_call \<Rightarrow> world \<Rightarrow> world" where
  "called c w = w\<lparr>calls := calls w @ [c]\<rparr>"

definition call_fails :: "world \<Rightarrow> bool" where
  "call_fails w = fails_at w (length (calls w))"

text \<open>
  \<^verbatim>\<open>db.collection(c).add(data)\<close>: a document is created under a generated id; the
  call fails rather than overwrite a document that has this id.
\<close>

definition firestore_add :: "string \<Rightarrow> jsval \<Rightarrow> world \<Rightarrow> (js_error + string) \<times> world" where
  "firestore_add c data w =
     (let i = auto_ids w (ids_made w)
      in if call_fails w \<or> docs w c i \<noteq> None then (Inl StoreFailure, called (Add c) w)
         else (Inr i,
               (called (Add c) w)
                 \<lparr>docs := (docs w)(c := (docs w c)(i \<mapsto> resolve (server_time w) data)),
                  server_time := server_time w + 1,
                  ids_made := ids_made w + 1\<rparr>))"

text \<open>\<^verbatim>\<open>db.collection(c).doc(i).get()\<close>: the snapshot is the document, if it exists.\<close>

definition firestore_get :: "string \<Rightarrow> string \<Rightarrow> world \<Rightarrow> (js_error + jsval option) \<times> world" where
  "firestore_get c i w =
     (if call_fails w then (Inl StoreFailure, called (Get c i) w)
      else (Inr (docs w c i), called (Get c i) w))"

text \<open>A field path names a nested field, its segments separated by dots.\<close>

fun split_path :: "string \<Rightarrow> string \<Rightarrow> string list" where
  "split_path seg [] = [rev seg]"
| "split_path seg (c # cs) =
     (if c = CHR ''.'' then rev seg # split_path [] cs else split_path (c # seg) cs)"

fun set_field :: "string list \<Rightarrow> jsval \<Rightarrow> jsval \<Rightarrow> jsval" where
  "set_field [] v d = v"
| "set_field (k # ks) v d =
     (let props = (case d of JObj kvs \<Rightarrow> kvs | _ \<Rightarrow> []);
          old = (case map_of props k of None \<Rightarrow> JObj [] | Some x \<Rightarrow> x)
      in JObj (assign k (set_field ks v old) props))"

definition apply_update :: "(string \<times> jsval) list \<Rightarrow> jsval \<Rightarrow> jsval" where
  "apply_update upd d = foldl (\<lambda>doc (p, v). set_field (split_path [] p) v doc) d upd"

text \<open>\<^verbatim>\<open>docRef.update(update)\<close>: fails when the document does not exist.\<close>

definition firestore_update ::
    "string \<Rightarrow> string \<Rightarrow> (string \<times> jsval) list \<Rightarrow> world \<Rightarrow> (js_error + unit) \<times> world" where
  "firestore_update c i upd w =
     (if call_fails w then (Inl StoreFailure, called (Update c i) w)
      else case docs w c i of
             None \<Rightarrow> (Inl StoreFailure, called (Update c i) w)
           | Some d \<Rightarrow>
               (Inr (),
                (called (Update c i) w)
                  \<lparr>docs := (docs w)(c := (docs w c)(i \<mapsto> resolve (server_time w) (apply_update upd d))),
                   server_time := server_time w + 1\<rparr>))"

definition read_clock :: "world \<Rightarrow> nat \<times> world" where
  "read_clock w = (clock_at w (clock_reads w), w\<lparr>clock_reads := clock_reads w + 1\<rparr>)"

definition serverTimestamp :: "world \<Rightarrow> jsval \<times> world" where
  "serverTimestamp w =
     (if has_FieldValue_serverTimestamp w then (JServerTimestamp, w)
      else if has_Timestamp_now w then (case read_clock w of (t, w') \<Rightarrow> (JTimestamp t, w'))
      else (case read_clock w of (t, w') \<Rightarrow> (JDateString t, w')))"

section \<open>Creating documents\<close>

text \<open>
  The three creation handlers end alike: the validated fields get the two timestamps,
  the document is added to the collection, and the response is the document with its id.
  A thrown error anywhere in the handler gives the handler's 500 response.
\<close>

definition store_document ::
    "string \<Rightarrow> response \<Rightarrow> (string \<times> jsval) list \<Rightarrow> world \<Rightarrow> response \<times> world" where
  "store_document collection failed data w =
     (case firestore_add collection (JObj data) w of
        (Inl e, w') \<Rightarrow> (failed, w')
      | (Inr i, w') \<Rightarrow>
          (\<lparr>status = 201, body = JObj (spread [(''ok'', JBool True), (''id'', JStr i)] data)\<rparr>, w'))"

definition with_timestamps :: "(string \<times> jsval) list \<Rightarrow> world \<Rightarrow> (string \<times> jsval) list \<times> world" where
  "with_timestamps fs w =
     (let (createdAt, w1) = serverTimestamp w;
          (updatedAt, w2) = serverTimestamp w1
      in (fs @ [(''createdAt'', createdAt), (''updatedAt'', updatedAt)], w2))"

definition create_document ::
    "string \<Rightarrow> response \<Rightarrow> exit + (string \<times> jsval) list \<Rightarrow> world \<Rightarrow> response \<times> world" where
  "create_document collection failed checked w =
     (case checked of
        Inl (Respond r) \<Rightarrow> (r, w)
      | Inl (Throw e) \<Rightarrow> (failed, w)
      | Inr fs \<Rightarrow> (let (data, w') = with_timestamps fs w in store_document collection failed data w'))"

text \<open>The part that \<^verbatim>\<open>POST /quotes\<close> and \<^verbatim>\<open>POST /jobs\<close> share: the checks on \<^verbatim>\<open>property\<close>.\<close>

definition check_property :: "jsval \<Rightarrow> exit + (jsval \<times> jsval \<times> jsval)" where
  "check_property property =
     and_then (unless (truthy property \<and> typeof property = ''object'')
                 (sendError 400 ''property is required'')) (\<lambda>_.
     and_then (raise (getp property ''address'')) (\<lambda>address.
     and_then (raise (getp property ''bedrooms'')) (\<lambda>bedrooms.
     and_then (raise (getp property ''bathrooms'')) (\<lambda>bathrooms.
     and_then (unless (isNonEmptyString address)
                 (sendError 400 ''property.address is required'')) (\<lambda>_.
     and_then (raise (ToNumber bedrooms)) (\<lambda>nbed.
     and_then (unless (isPositiveInt (JNum nbed))
                 (sendError 400 ''property.bedrooms must be a non-negative integer'')) (\<lambda>_.
     and_then (raise (ToNumber bathrooms)) (\<lambda>nbath.
     and_then (unless (isPositiveInt (JNum nbath))
                 (sendError 400 ''property.bathrooms must be a non-negative integer'')) (\<lambda>_.
       Inr (address, JNum nbed, JNum nbath))))))))))"

definition addOns_flags :: "jsval \<Rightarrow> exit + jsval" where
  "addOns_flags addOns =
     and_then (raise (getp addOns ''deepClean'')) (\<lambda>dc.
     and_then (raise (getp addOns ''premiumLinen'')) (\<lambda>pl.
       Inr (JObj [(''deepClean'', JBool (truthy dc)), (''premiumLinen'', JBool (truthy pl))])))"

definition property_fields :: "jsval \<Rightarrow> jsval \<Rightarrow> jsval \<Rightarrow> jsval" where
  "property_fields address nbed nbath =
     JObj [(''address'', JStr (trim (String_of address))),
           (''bedrooms'', nbed),
           (''bathrooms'', nbath)]"

subsection \<open>\<^verbatim>\<open>POST /quotes\<close>\<close>

definition quote_fields :: "jsval \<Rightarrow> exit + (string \<times> jsval) list" where
  "quote_fields req_body =
     (let b = js_or req_body (JObj [])
      in and_then (raise (getp b ''hostName'')) (\<lambda>hostName.
         and_then (raise (getp b ''email'')) (\<lambda>email.
         and_then (raise (getp b ''phone'')) (\<lambda>phone.
         and_then (raise (getp b ''property'')) (\<lambda>property.
         and_then (raise (getp_default b ''preferences'' (JObj []))) (\<lambda>preferences.
         and_then (raise (getp b ''notes'')) (\<lambda>notes.
         and_then (unless (isNonEmptyString hostName) (sendError 400 ''hostName is required'')) (\<lambda>_.
         and_then (unless (isNonEmptyString email) (sendError 400 ''email is required'')) (\<lambda>_.
         and_then (check_property property) (\<lambda>(address, nbed, nbath).
         and_then (if truthy preferences then raise (getp preferences ''addOns'')
                   else Inr preferences) (\<lambda>pa.
         let addOns = js_or pa (JObj [])
         in and_then (raise (computeTurnoverPrice
                        (JObj [(''bedrooms'', nbed), (''bathrooms'', nbath), (''addOns'', addOns)]))) (\<lambda>pricing.
            and_then (addOns_flags addOns) (\<lambda>flags.
              Inr [(''hostName'', JStr (trim (String_of hostName))),
                   (''email'', JStr (trim (String_of email))),
                   (''phone'', trimmed_or_null phone),
                   (''property'', property_fields address nbed nbath),
                   (''preferences'', JObj [(''addOns'', flags)]),
                   (''notes'', trimmed_or_null notes),
                   (''pricing'', pricing),
                   (''currency'', JStr PRICING_currency),
                   (''status'', JStr ''quoted'')])))))))))))))"

definition post_quotes :: "jsval \<Rightarrow> world \<Rightarrow> response \<times> world" where
  "post_quotes req_body w =
     create_document ''quotes'' (sendError 500 ''Failed to create quote'') (quote_fields req_body) w"


subsection \<open>\<^verbatim>\<open>POST /jobs\<close>\<close>

definition check_schedule :: "jsval \<Rightarrow> exit + (jsval \<times> jsval)" where
  "check_schedule schedule =
     and_then (unless (truthy schedule \<and> typeof schedule = ''object'')
                 (sendError 400 ''schedule is required'')) (\<lambda>_.
     and_then (raise (getp schedule ''start'')) (\<lambda>start.
     and_then (raise (getp schedule ''end'')) (\<lambda>end'.
     and_then (unless (isNonEmptyString start)
                 (sendError 400 ''schedule.start is required (ISO string)'')) (\<lambda>_.
     and_then (unless (isNonEmptyString end')
                 (sendError 400 ''schedule.end is required (ISO string)'')) (\<lambda>_.
       Inr (start, end'))))))"

definition job_pricing :: "jsval \<Rightarrow> jsval \<Rightarrow> jsval \<Rightarrow> jsval \<Rightarrow> exit + jsval" where
  "job_pricing price nbed nbath addOns =
     (if typeof price = ''number''
      then Inr (JObj [(''total'', price),
                      (''breakdown'', JObj [(''customOverride'', price)]),
                      (''currency'', JStr PRICING_currency)])
      else raise (computeTurnoverPrice
                    (JObj [(''bedrooms'', nbed), (''bathrooms'', nbath), (''addOns'', addOns)])))"

definition checklistDefault :: "jsval \<Rightarrow> exit + jsval" where
  "checklistDefault addOns =
     and_then (raise (getp addOns ''premiumLinen'')) (\<lambda>pl.
       Inr (JObj [(''bathroomsDone'', JBool False),
                  (''kitchenDone'', JBool False),
                  (''floorsDone'', JBool False),
                  (''trashOut'', JBool False),
                  (''linensChanged'', JBool (truthy pl)),
                  (''restockSupplies'', JBool False),
                  (''photosTaken'', JBool False)]))"

definition job_fields :: "jsval \<Rightarrow> exit + (string \<times> jsval) list" where
  "job_fields req_body =
     (let b = js_or req_body (JObj [])
      in and_then (raise (getp b ''quoteId'')) (\<lambda>quoteId.
         and_then (raise (getp b ''schedule'')) (\<lambda>schedule.
         and_then (raise (getp b ''property'')) (\<lambda>property.
         and_then (raise (getp_default b ''addOns'' (JObj []))) (\<lambda>addOns.
         and_then (raise (getp b ''price'')) (\<lambda>price.
         and_then (raise (getp b ''notes'')) (\<lambda>notes.
         and_then (check_schedule schedule) (\<lambda>(start, end').
         and_then (check_property property) (\<lambda>(address, nbed, nbath).
         and_then (job_pricing price nbed nbath addOns) (\<lambda>pricing.
         and_then (checklistDefault addOns) (\<lambda>checklist.
         and_then (addOns_flags addOns) (\<lambda>flags.
           Inr [(''quoteId'', trimmed_or_null quoteId),
                (''schedule'', JObj [(''start'', JStr (String_of start)),
                                     (''end'', JStr (String_of end'))]),
                (''property'', property_fields address nbed nbath),
                (''addOns'', flags),
                (''pricing'', pricing),
                (''currency'', JStr PRICING_currency),
                (''status'', JStr ''scheduled''),
                (''checklist'', checklist),
                (''notes'', trimmed_or_null notes)]))))))))))))"

definition post_jobs :: "jsval \<Rightarrow> world \<Rightarrow> response \<times> world" where
  "post_jobs req_body w =
     create_document ''jobs'' (sendError 500 ''Failed to create job'') (job_fields req_body) w"

subsection \<open>\<^verbatim>\<open>POST /linen/orders\<close>\<close>

text \<open>\<^verbatim>\<open>Number(items.name) || 0\<close>\<close>

definition item_count :: "jsval \<Rightarrow> string \<Rightarrow> exit + jsval" where
  "item_count items name =
     and_then (raise (getp items name)) (\<lambda>x.
     and_then (raise (ToNumber x)) (\<lambda>n. Inr (JNum (or_zero n))))"

definition linen_items :: "jsval \<Rightarrow> exit + jsval" where
  "linen_items items =
     and_then (item_count items ''queenSets'') (\<lambda>queenSets.
     and_then (item_count items ''doubleSets'') (\<lambda>doubleSets.
     and_then (item_count items ''singleSets'') (\<lambda>singleSets.
     and_then (item_count items ''towelSets'') (\<lambda>towelSets.
     and_then (item_count items ''bathMats'') (\<lambda>bathMats.
     and_then (item_count items ''teaTowels'') (\<lambda>teaTowels.
       Inr (JObj [(''queenSets'', queenSets),
                  (''doubleSets'', doubleSets),
                  (''singleSets'', singleSets),
                  (''towelSets'', towelSets),
                  (''bathMats'', bathMats),
                  (''teaTowels'', teaTowels)])))))))"

definition linen_pricing :: jsval where
  "linen_pricing =
     JObj [(''total'', JNum PRICING_linenStandalone),
           (''breakdown'', JObj [(''pickup'', JNum (Fin 10)),
                                 (''processing'', JNum (Fin 25)),
                                 (''delivery'', JNum (Fin 10))]),
           (''currency'', JStr PRICING_currency)]"

definition linen_fields :: "jsval \<Rightarrow> exit + (string \<times> jsval) list" where
  "linen_fields req_body =
     (let b = js_or req_body (JObj [])
      in and_then (raise (getp b ''jobId'')) (\<lambda>jobId.
         and_then (raise (getp b ''property'')) (\<lambda>property.
         and_then (raise (getp_default b ''items'' (JObj []))) (\<lambda>items.
         and_then (raise (getp b ''pickupAt'')) (\<lambda>pickupAt.
         and_then (raise (getp b ''returnAt'')) (\<lambda>returnAt.
         and_then (raise (getp b ''notes'')) (\<lambda>notes.
         and_then (unless (truthy property \<and> typeof property = ''object'')
                     (sendError 400 ''property is required'')) (\<lambda>_.
         and_then (raise (getp property ''address'')) (\<lambda>address.
         and_then (unless (isNonEmptyString address)
                     (sendError 400 ''property.address is required'')) (\<lambda>_.
         and_then (unless (isNonEmptyString pickupAt \<and> isNonEmptyString returnAt)
                     (sendError 400 ''pickupAt and returnAt are required'')) (\<lambda>_.
         and_then (linen_items items) (\<lambda>counts.
           Inr [(''jobId'', trimmed_or_null jobId),
                (''property'', JObj [(''address'', JStr (trim (String_of address)))]),
                (''items'', counts),
                (''schedule'', JObj [(''pickupAt'', JStr (String_of pickupAt)),
                                     (''returnAt'', JStr (String_of returnAt))]),
                (''pricing'', linen_pricing),
                (''currency'', JStr PRICING_currency),
                (''status'', JStr ''scheduled''),
                (''notes'', trimmed_or_null notes)]))))))))))))"

definition post_linen_orders :: "jsval \<Rightarrow> world \<Rightarrow> response \<times> world" where
  "post_linen_orders req_body w =
     create_document ''linen_orders'' (sendError 500 ''linen_order_failed'') (linen_fields req_body) w"


section \<open>Reading documents\<close>

text \<open>The fields of a snapshot's \<^verbatim>\<open>data()\<close>, as the spread \<^verbatim>\<open>...snap.data()\<close> copies them.\<close>

definition doc_fields :: "jsval \<Rightarrow> (string \<times> jsval) list" where
  "doc_fields d = (case d of JObj kvs \<Rightarrow> kvs | _ \<Rightarrow> [])"

definition found :: "string \<Rightarrow> jsval \<Rightarrow> response" where
  "found i d = \<lparr>status = 200, body = JObj (spread [(''ok'', JBool True), (''id'', JStr i)] (doc_fields d))\<rparr>"

definition get_document :: "string \<Rightarrow> string \<Rightarrow> string \<Rightarrow> string \<Rightarrow> world \<Rightarrow> response \<times> world" where
  "get_document collection missing failed i w =
     (case firestore_get collection i w of
        (Inl e, w') \<Rightarrow> (sendError 500 failed, w')
      | (Inr None, w') \<Rightarrow> (sendError 404 missing, w')
      | (Inr (Some d), w') \<Rightarrow> (found i d, w'))"

definition get_quote :: "string \<Rightarrow> world \<Rightarrow> response \<times> world" where
  "get_quote = get_document ''quotes'' ''Quote not found'' ''Failed to fetch quote''"

definition get_job :: "string \<Rightarrow> world \<Rightarrow> response \<times> world" where
  "get_job = get_document ''jobs'' ''Job not found'' ''Failed to fetch job''"

definition get_linen_order :: "string \<Rightarrow> world \<Rightarrow> response \<times> world" where
  "get_linen_order = get_document ''linen_orders'' ''Linen order not found'' ''Failed to fetch linen order''"

section \<open>\<^verbatim>\<open>PATCH /jobs/:id/checklist\<close>\<close>

definition allowedKeys :: "string list" where
  "allowedKeys =
     [''bathroomsDone'', ''kitchenDone'', ''floorsDone'', ''trashOut'',
      ''linensChanged'', ''restockSupplies'', ''photosTaken'']"

text \<open>The decimal name of an array index, as \<^verbatim>\<open>Object.entries\<close> of an array lists it.\<close>

fun index_key :: "nat \<Rightarrow> string" where
  "index_key n =
     (if n < 10 then [char_of (48 + n)] else index_key (n div 10) @ [char_of (48 + n mod 10)])"

declare index_key.simps [simp del]

definition Object_entries :: "jsval \<Rightarrow> (string \<times> jsval) list" where
  "Object_entries v =
     (case v of
        JObj kvs \<Rightarrow> kvs
      | JArr xs \<Rightarrow> zip (map index_key [0..<length xs]) xs
      | _ \<Rightarrow> [])"

text \<open>
  The loop over the entries of the body: \<^verbatim>\<open>update\<close> and \<^verbatim>\<open>hasAny\<close> are its variables,
  and a recognised key with a value that is not a boolean returns from the handler.
\<close>

fun collect_update ::
    "(string \<times> jsval) list \<Rightarrow> (string \<times> jsval) list \<Rightarrow> bool \<Rightarrow> exit + ((string \<times> jsval) list \<times> bool)" where
  "collect_update [] update hasAny = Inr (update, hasAny)"
| "collect_update ((k, v) # rest) update hasAny =
     (if k \<notin> set allowedKeys then collect_update rest update hasAny
      else if typeof v \<noteq> ''boolean''
           then Inl (Respond (sendError 400 (''Checklist field '' @ k @ '' must be boolean'')))
           else collect_update rest (assign (''checklist.'' @ k) v update) True)"

text \<open>The body as the handler checks it, before the store is used.\<close>

definition checklist_update :: "jsval \<Rightarrow> exit + (string \<times> jsval) list" where
  "checklist_update req_body =
     (let b = js_or req_body (JObj [])
      in and_then (unless (truthy b \<and> typeof b = ''object'')
                     (sendError 400 ''Request body must be an object'')) (\<lambda>_.
         and_then (collect_update (Object_entries b) [] False) (\<lambda>(update, hasAny).
         and_then (unless hasAny (sendError 400 ''No valid checklist fields provided'')) (\<lambda>_.
           Inr update))))"

text \<open>The rest of the handler: the timestamp, the existence check, the update, the reread.\<close>

definition write_checklist :: "string \<Rightarrow> (string \<times> jsval) list \<Rightarrow> world \<Rightarrow> (js_error + response) \<times> world" where
  "write_checklist i update w =
     (let (stamp, w1) = serverTimestamp w;
          update' = assign ''updatedAt'' stamp update
      in case firestore_get ''jobs'' i w1 of
           (Inl e, w2) \<Rightarrow> (Inl e, w2)
         | (Inr None, w2) \<Rightarrow> (Inr (sendError 404 ''Job not found''), w2)
         | (Inr (Some snap), w2) \<Rightarrow>
             (case firestore_update ''jobs'' i update' w2 of
                (Inl e, w3) \<Rightarrow> (Inl e, w3)
              | (Inr u, w3) \<Rightarrow>
                  (case firestore_get ''jobs'' i w3 of
                     (Inl e, w4) \<Rightarrow> (Inl e, w4)
                   | (Inr updated, w4) \<Rightarrow>
                       (Inr (found i (case updated of None \<Rightarrow> JUndefined | Some d \<Rightarrow> d)), w4))))"

definition patch_checklist :: "string \<Rightarrow> jsval \<Rightarrow> world \<Rightarrow> response \<times> world" where
  "patch_checklist i req_body w =
     (case checklist_update req_body of
        Inl (Respond r) \<Rightarrow> (r, w)
      | Inl (Throw e) \<Rightarrow> (sendError 500 ''Failed to update checklist'', w)
      | Inr update \<Rightarrow>
          (case write_checklist i update w of
             (Inl e, w') \<Rightarrow> (sendError 500 ''Failed to update checklist'', w')
           | (Inr r, w') \<Rightarrow> (r, w')))"

section \<open>The routes\<close>

text \<open>
  A request that has passed the middleware, by the route that matches it; the welcome
  route is given whether the request accepts JSON. The welcome message ends in a rocket
  emoji, two code units beyond the strings modelled here, which \<open>welcome_message\<close> leaves out.
\<close>

datatype request =
    GetRoot bool
  | GetHealth
  | PostQuotes jsval
  | GetQuote string
  | PostJobs jsval
  | PatchChecklist string jsval
  | GetJob string
  | PostLinenOrders jsval
  | GetLinenOrder string
  | Unmatched string

definition envName :: "world \<Rightarrow> string" where
  "envName w = (if emulator w then ''emulator'' else ''prod'')"

definition welcome_message :: string where
  "welcome_message = ''Welcome to LuxeClean API root ''"

definition root :: "bool \<Rightarrow> world \<Rightarrow> response" where
  "root acceptsJson w =
     (if acceptsJson
      then \<lparr>status = 200,
            body = JObj [(''ok'', JBool True), (''message'', JStr welcome_message),
                         (''env'', JStr (envName w)), (''service'', JStr ''api'')]\<rparr>
      else \<lparr>status = 200, body = JStr welcome_message\<rparr>)"

definition health :: "world \<Rightarrow> response" where
  "health w =
     \<lparr>status = 200,
      body = JObj [(''ok'', JBool True), (''env'', JStr (envName w)), (''service'', JStr ''api'')]\<rparr>"

fun handle :: "request \<Rightarrow> world \<Rightarrow> response \<times> world" where
  "handle (GetRoot acceptsJson) w = (root acceptsJson w, w)"
| "handle GetHealth w = (health w, w)"
| "handle (PostQuotes b) w = post_quotes b w"
| "handle (GetQuote i) w = get_quote i w"
| "handle (PostJobs b) w = post_jobs b w"
| "handle (PatchChecklist i b) w = patch_checklist i b w"
| "handle (GetJob i) w = get_job i w"
| "handle (PostLinenOrders b) w = post_linen_orders b w"
| "handle (GetLinenOrder i) w = get_linen_order i w"
| "handle (Unmatched path) w =
     (\<lparr>status = 404,
       body = JObj [(''ok'', JBool False), (''error'', JStr ''Not Found''), (''path'', JStr path)]\<rparr>, w)"

text \<open>The world after a sequence of requests, served one after the other.\<close>

fun serve :: "request list \<Rightarrow> world \<Rightarrow> world" where
  "serve [] w = w"
| "serve (r # rs) w = serve rs (snd (handle r w))"


section \<open>Notions of the specification\<close>

text \<open>
  The total as the specification writes it,
  \<^verbatim>\<open>85 + 20*bedrooms + 15*bathrooms + (90 if deepClean) + (35 if premiumLinen)\<close>,
  in the arithmetic of the program's numbers.
\<close>

definition spec_total :: "jsnum \<Rightarrow> jsnum \<Rightarrow> bool \<Rightarrow> bool \<Rightarrow> jsnum" where
  "spec_total bedrooms bathrooms deepClean premiumLinen =
     js_add (js_add (js_add (js_add (Fin 85) (js_mul (Fin 20) bedrooms)) (js_mul (Fin 15) bathrooms))
        (if deepClean then Fin 90 else Fin 0)) (if premiumLinen then Fin 35 else Fin 0)"

text \<open>The numeric values of an object, in the order of its keys, and their sum from 0.\<close>

definition number_values :: "(string \<times> jsval) list \<Rightarrow> jsnum list" where
  "number_values kvs = concat (map (\<lambda>kv. case snd kv of JNum n \<Rightarrow> [n] | _ \<Rightarrow> []) kvs)"

definition sum_values :: "(string \<times> jsval) list \<Rightarrow> jsnum" where
  "sum_values kvs = foldl js_add (Fin 0) (number_values kvs)"

text \<open>A number that is zero, positive or \<open>+\<infinity>\<close>.\<close>

definition nonneg :: "jsnum \<Rightarrow> bool" where
  "nonneg n = (case n of Fin r \<Rightarrow> 0 \<le> r | PosInf \<Rightarrow> True | _ \<Rightarrow> False)"

text \<open>A number below zero, or \<open>-\<infinity>\<close>.\<close>

definition negative :: "jsnum \<Rightarrow> bool" where
  "negative n = (case n of Fin r \<Rightarrow> r < 0 | NegInf \<Rightarrow> True | _ \<Rightarrow> False)"

text \<open>A number that a double holds: rounding leaves it as it is.\<close>

definition is_double :: "jsnum \<Rightarrow> bool" where
  "is_double n = (case n of Fin r \<Rightarrow> fl r = Fin r | _ \<Rightarrow> True)"

text \<open>
  The pricing of a document adds up: the total is a number that equals itself (it is not
  not-a-number), all values of the breakdown are numbers, and their sum is the total.
\<close>

definition pricing_adds_up :: "jsval \<Rightarrow> bool" where
  "pricing_adds_up doc =
     (case getp doc ''pricing'' of
        Inr p \<Rightarrow>
          (case (getp p ''total'', getp p ''breakdown'') of
             (Inr (JNum t), Inr (JObj br)) \<Rightarrow>
               t \<noteq> NaN \<and> length (number_values br) = length br \<and> sum_values br = t
           | _ \<Rightarrow> False)
      | _ \<Rightarrow> False)"

text \<open>An entry of the body with a recognised key and a value that is not a boolean.\<close>

definition not_boolean_field :: "string \<times> jsval \<Rightarrow> bool" where
  "not_boolean_field kv = (fst kv \<in> set allowedKeys \<and> typeof (snd kv) \<noteq> ''boolean'')"

text \<open>The entries of the request body that the handler loops over.\<close>

definition body_entries :: "jsval \<Rightarrow> (string \<times> jsval) list" where
  "body_entries req_body = Object_entries (js_or req_body (JObj []))"

section \<open>Example requests\<close>

text \<open>
  A world with an empty store, a working connection and the admin SDK's
  \<^verbatim>\<open>FieldValue.serverTimestamp\<close>, and requests to run in it.
\<close>

definition example_world :: world where
  "example_world =
     \<lparr>docs = (\<lambda>c i. None), server_time = 1000, auto_ids = (\<lambda>n. ''doc'' @ index_key n), ids_made = 0,
      fails_at = (\<lambda>n. False), calls = [], has_FieldValue_serverTimestamp = True,
      has_Timestamp_now = True, clock_at = (\<lambda>n. 990 + n), clock_reads = 0, emulator = False\<rparr>"

definition example_property :: jsval where
  "example_property =
     JObj [(''address'', JStr ''1 Main St''), (''bedrooms'', JNum (Fin 2)), (''bathrooms'', JNum (Fin 1))]"

definition example_job :: jsval where
  "example_job =
     JObj [(''schedule'', JObj [(''start'', JStr ''2025-01-01T10:00:00Z''),
                                (''end'', JStr ''2025-01-01T12:00:00Z'')]),
           (''property'', example_property),
           (''addOns'', JObj [(''premiumLinen'', JBool True)]),
           (''price'', JNum (Fin 200))]"

definition example_job_computed :: jsval where
  "example_job_computed =
     JObj [(''schedule'', JObj [(''start'', JStr ''2025-01-01T10:00:00Z''),
                                (''end'', JStr ''2025-01-01T12:00:00Z'')]),
           (''property'', example_property),
           (''addOns'', JObj [(''premiumLinen'', JBool True)])]"


definition example_quote_toString :: jsval where
  "example_quote_toString =
     JObj [(''hostName'', JStr ''Alex''), (''email'', JStr ''a@b.com''),
           (''property'', JObj [(''address'', JStr ''1 Main St''),
                                (''bedrooms'', JObj [(''toString'', JNum (Fin 1))]),
                                (''bathrooms'', JNum (Fin 1))])]"

definition example_job_toString :: jsval where
  "example_job_toString =
     JObj [(''schedule'', JObj [(''start'', JStr ''2025-01-01T10:00:00Z''),
                                (''end'', JStr ''2025-01-01T12:00:00Z'')]),
           (''property'', JObj [(''address'', JStr ''1 Main St''),
                                (''bedrooms'', JNum (Fin 2)),
                                (''bathrooms'', JObj [(''toString'', JNum (Fin 1))])])]"

definition example_linen_order :: jsval where
  "example_linen_order =
     JObj [(''property'', JObj [(''address'', JStr ''1 Main St'')]),
           (''items'', JObj [(''queenSets'', JNum (Fin 7)), (''towelSets'', JStr ''many'')]),
           (''pickupAt'', JStr ''2025-01-01T10:00:00Z''),
           (''returnAt'', JStr ''2025-01-01T12:00:00Z'')]"

definition example_quote :: jsval where
  "example_quote =
     JObj [(''hostName'', JStr ''Alex''), (''email'', JStr ''a@b.com''), (''property'', example_property)]"

section \<open>Numbers: small integers are exact\<close>

lemma bitlen_small:
  assumes "0 < a" "a \<le> 2 ^ 53"
  shows "1 \<le> bitlen a" "bitlen a \<le> 54"
proof -
  from bitlen_bounds[OF assms(1)] have lo: "2 ^ nat (bitlen a - 1) \<le> a" and hi: "a < 2 ^ nat (bitlen a)"
    by auto
  show "1 \<le> bitlen a"
  proof (rule ccontr)
    assume "\<not> 1 \<le> bitlen a"
    then have "nat (bitlen a) = 0" by simp
    with hi assms(1) show False by simp
  qed
  have "nat (bitlen a - 1) \<le> 53"
  proof (rule power_le_imp_le_exp)
    show "(1::int) < 2" by simp
    show "(2::int) ^ nat (bitlen a - 1) \<le> 2 ^ 53" using lo assms(2) by linarith
  qed
  then show "bitlen a \<le> 54" by linarith
qed

lemma round_half_even_of_int: "round_half_even (of_int m) = m"
  by (simp add: round_half_even_def Let_def)

lemma fl_of_int:
  assumes "\<bar>n\<bar> \<le> 2 ^ 53"
  shows "fl (of_int n) = Fin (of_int n)"
proof (cases "n = 0")
  case True
  then show ?thesis by (simp add: fl_def)
next
  case False
  define a where "a = \<bar>n\<bar>"
  have a: "0 < a" "a \<le> 2 ^ 53" using False assms by (auto simp: a_def)
  define e where "e = bitlen a - 1"
  have e: "0 \<le> e" "e \<le> 53" using bitlen_small[OF a] by (auto simp: e_def)
  have abs_eq: "\<bar>(of_int n :: rat)\<bar> = of_int a" by (simp add: a_def)
  have "1 \<le> a" using a(1) by linarith
  then have "(1::rat) \<le> of_int a" by simp
  then have il: "ilog2 \<bar>of_int n\<bar> = e" by (simp add: ilog2_def abs_eq e_def)
  define u where "u = pow2 (e - 52)"
  have upos: "0 < u" by (simp add: u_def pow2_def)
  have "\<exists>m::int. (of_int n :: rat) / u = of_int m"
  proof (cases "e \<le> 52")
    case True
    then have "u = 1 / 2 ^ nat (52 - e)"
      by (cases "e = 52") (auto simp: u_def pow2_def)
    then have "(of_int n :: rat) / u = of_int (n * 2 ^ nat (52 - e))" by simp
    then show ?thesis by blast
  next
    case False
    with e have e53: "e = 53" by linarith
    then have "bitlen a = 54" by (simp add: e_def)
    with bitlen_bounds[OF a(1)] have "2 ^ 53 \<le> a" by simp
    with a have "a = 2 ^ 53" by linarith
    then have "n = 2 ^ 53 \<or> n = - (2 ^ 53)" by (auto simp: a_def abs_if split: if_splits)
    moreover have "u = 2" using e53 by (simp add: u_def pow2_def)
    ultimately have "(of_int n :: rat) / u = of_int (n div 2)" by auto
    then show ?thesis by blast
  qed
  then obtain m :: int where m: "(of_int n :: rat) / u = of_int m" by blast
  then have v: "of_int (round_half_even (of_int n / u)) * u = (of_int n :: rat)"
    using upos by (simp add: round_half_even_of_int field_simps)
  have "(of_int a :: rat) \<le> 2 ^ 53" using a(2) by (metis of_int_le_iff of_int_numeral of_int_power)
  also have "(2::rat) ^ 53 < 2 ^ 1024" by (rule power_strict_increasing) auto
  finally have small: "\<not> (2::rat) ^ 1024 \<le> \<bar>of_int n\<bar>" by (simp add: abs_eq)
  have mx: "max e (- 1022) = e" using e by simp
  show ?thesis
    using False v small unfolding fl_def il mx u_def[symmetric] Let_def by simp
qed

lemma fl_of_nat: "n \<le> 2 ^ 53 \<Longrightarrow> fl (of_nat n) = Fin (of_nat n)"
  using fl_of_int[of "int n"] by simp

lemma fl_numeral [simp]: "numeral k \<le> (2::int) ^ 53 \<Longrightarrow> fl (numeral k) = Fin (numeral k)"
  using fl_of_int[of "numeral k"] by simp

lemma fl_neg_numeral [simp]: "numeral k \<le> (2::int) ^ 53 \<Longrightarrow> fl (- numeral k) = Fin (- numeral k)"
  using fl_of_int[of "- numeral k"] by simp

lemma fl_0 [simp]: "fl 0 = Fin 0"
  by (simp add: fl_def)

lemma fl_1 [simp]: "fl 1 = Fin 1"
  using fl_of_int[of 1] by simp

lemma js_mul_nat:
  "m * n \<le> 2 ^ 53 \<Longrightarrow> js_mul (Fin (of_nat m)) (Fin (of_nat n)) = Fin (of_nat (m * n))"
  using fl_of_nat[of "m * n"] by simp

lemma js_add_nat:
  "m + n \<le> 2 ^ 53 \<Longrightarrow> js_add (Fin (of_nat m)) (Fin (of_nat n)) = Fin (of_nat (m + n))"
  using fl_of_nat[of "m + n"] by simp

lemma js_mul_commute: "js_mul a b = js_mul b a"
  by (cases a; cases b) (simp_all add: mult.commute)

section \<open>Control flow\<close>

lemma and_then_simps [simp]:
  "and_then (Inr x) f = f x"
  "and_then (Inl e) f = Inl e"
  by (simp_all add: and_then_def)

lemma raise_simps [simp]:
  "raise (Inr x) = Inr x"
  "raise (Inl e) = Inl (Throw e)"
  by (simp_all add: raise_def)

lemma unless_simps [simp]:
  "unless True r = Inr ()"
  "unless False r = Inl (Respond r)"
  by (simp_all add: unless_def)

lemma ToNumber_JNum [simp]: "ToNumber (JNum n) = Inr n"
  by (simp add: ToNumber_def)

lemma or_zero_of_nat [simp]: "or_zero (Fin (of_nat b)) = Fin (of_nat b)"
  by (simp add: or_zero_def)

lemmas pricing_consts = PRICING_base_def PRICING_perBedroom_def PRICING_perBathroom_def
  PRICING_deepClean_def PRICING_linenAddon_def PRICING_linenStandalone_def PRICING_currency_def

section \<open>The turnover price\<close>

lemma spec_total_exact:
  fixes b c :: nat
  assumes "20 * b + 15 * c + 210 \<le> 2 ^ 53"
  shows "spec_total (Fin (of_nat b)) (Fin (of_nat c)) dc pl
         = Fin (of_nat (85 + 20 * b + 15 * c + (if dc then 90 else 0) + (if pl then 35 else 0)))"
proof -
  define d :: nat where "d = (if dc then 90 else 0)"
  define l :: nat where "l = (if pl then 35 else 0)"
  have dl: "d \<le> 90" "l \<le> 35" by (simp_all add: d_def l_def)
  have n: "Fin 20 = Fin (of_nat 20)" "Fin 15 = Fin (of_nat 15)" "Fin 85 = Fin (of_nat 85)"
    by simp_all
  have fd: "(if dc then Fin 90 else Fin 0) = Fin (of_nat d)" by (simp add: d_def)
  have fl: "(if pl then Fin 35 else Fin 0) = Fin (of_nat l)" by (simp add: l_def)
  have 1: "js_mul (Fin (of_nat 20)) (Fin (of_nat b)) = Fin (of_nat (20 * b))"
    using assms by (intro js_mul_nat) linarith
  have 2: "js_mul (Fin (of_nat 15)) (Fin (of_nat c)) = Fin (of_nat (15 * c))"
    using assms by (intro js_mul_nat) linarith
  have 3: "js_add (Fin (of_nat 85)) (Fin (of_nat (20 * b))) = Fin (of_nat (85 + 20 * b))"
    using assms by (intro js_add_nat) linarith
  have 4: "js_add (Fin (of_nat (85 + 20 * b))) (Fin (of_nat (15 * c))) = Fin (of_nat (85 + 20 * b + 15 * c))"
    using assms by (intro js_add_nat) linarith
  have 5: "js_add (Fin (of_nat (85 + 20 * b + 15 * c))) (Fin (of_nat d)) = Fin (of_nat (85 + 20 * b + 15 * c + d))"
    using assms dl by (intro js_add_nat) linarith
  have 6: "js_add (Fin (of_nat (85 + 20 * b + 15 * c + d))) (Fin (of_nat l)) = Fin (of_nat (85 + 20 * b + 15 * c + d + l))"
    using assms dl by (intro js_add_nat) linarith
  have "spec_total (Fin (of_nat b)) (Fin (of_nat c)) dc pl = Fin (of_nat (85 + 20 * b + 15 * c + d + l))"
    unfolding spec_total_def fd fl n 1 2 3 4 5 6 ..
  then show ?thesis by (simp only: d_def l_def)
qed

lemma turnover_price_numbers:
  "turnover_price (JNum nb) (JNum nc) (JObj [(''deepClean'', JBool dc), (''premiumLinen'', JBool pl)])
   = Inr (JObj [(''total'', JNum (js_add (js_add (js_add (js_add (Fin 85) (js_mul (or_zero nb) (Fin 20)))
                                   (js_mul (or_zero nc) (Fin 15)))
                                   (if dc then Fin 90 else Fin 0)) (if pl then Fin 35 else Fin 0))),
                (''breakdown'', JObj
                   [(''base'', JNum (Fin 85)),
                    (''bedroomsCost'', JNum (js_mul (or_zero nb) (Fin 20))),
                    (''bathroomsCost'', JNum (js_mul (or_zero nc) (Fin 15))),
                    (''deepClean'', JNum (if dc then Fin 90 else Fin 0)),
                    (''premiumLinen'', JNum (if pl then Fin 35 else Fin 0))]),
                (''currency'', JStr ''AUD'')])"
  by (simp add: turnover_price_def pricing_consts Let_def)

lemma computeTurnoverPrice_fields:
  "computeTurnoverPrice (JObj [(''bedrooms'', v), (''bathrooms'', u), (''addOns'', a)])
   = turnover_price (if v = JUndefined then JNum (Fin 0) else v)
                    (if u = JUndefined then JNum (Fin 0) else u)
                    (if a = JUndefined then JObj [] else a)"
  by (simp add: computeTurnoverPrice_def getp_default_def)

text \<open>
  Claim C1. For all non-negative integers \<open>b\<close> bedrooms and \<open>c\<close> bathrooms and all boolean
  flags, \<^verbatim>\<open>computeTurnoverPrice\<close> returns a result whose total is
  \<open>85 + 20 b + 15 c + (90 if deepClean) + (35 if premiumLinen)\<close> and whose breakdown has
  the keys \<^verbatim>\<open>base\<close>, \<^verbatim>\<open>bedroomsCost\<close>, \<^verbatim>\<open>bathroomsCost\<close>, \<^verbatim>\<open>deepClean\<close>,
  \<^verbatim>\<open>premiumLinen\<close>, five numbers that sum to the total. The sums are those of the
  program's numbers; they are the exact integers as long as the total stays within
  \<open>2\<^sup>5\<^sup>3\<close>, where doubles hold every integer.
\<close>

theorem computeTurnoverPrice_total:
  fixes b c :: nat
  shows "\<exists>br. computeTurnoverPrice
            (JObj [(''bedrooms'', JNum (Fin (of_nat b))),
                   (''bathrooms'', JNum (Fin (of_nat c))),
                   (''addOns'', JObj [(''deepClean'', JBool dc), (''premiumLinen'', JBool pl)])])
          = Inr (JObj [(''total'', JNum (spec_total (Fin (of_nat b)) (Fin (of_nat c)) dc pl)),
                       (''breakdown'', JObj br),
                       (''currency'', JStr ''AUD'')])
        \<and> map fst br = [''base'', ''bedroomsCost'', ''bathroomsCost'', ''deepClean'', ''premiumLinen'']
        \<and> length (number_values br) = 5
        \<and> sum_values br = spec_total (Fin (of_nat b)) (Fin (of_nat c)) dc pl
        \<and> (20 * b + 15 * c + 210 \<le> 2 ^ 53 \<longrightarrow>
             spec_total (Fin (of_nat b)) (Fin (of_nat c)) dc pl
             = Fin (of_nat (85 + 20 * b + 15 * c + (if dc then 90 else 0) + (if pl then 35 else 0))))"
proof -
  let ?br = "[(''base'', JNum (Fin 85)),
              (''bedroomsCost'', JNum (js_mul (Fin (of_nat b)) (Fin 20))),
              (''bathroomsCost'', JNum (js_mul (Fin (of_nat c)) (Fin 15))),
              (''deepClean'', JNum (if dc then Fin 90 else Fin 0)),
              (''premiumLinen'', JNum (if pl then Fin 35 else Fin 0))]"
  have t: "spec_total (Fin (of_nat b)) (Fin (of_nat c)) dc pl
           = js_add (js_add (js_add (js_add (Fin 85) (js_mul (Fin (of_nat b)) (Fin 20)))
               (js_mul (Fin (of_nat c)) (Fin 15))) (if dc then Fin 90 else Fin 0)) (if pl then Fin 35 else Fin 0)"
    unfolding spec_total_def js_mul_commute[of "Fin 20"] js_mul_commute[of "Fin 15"] ..
  have r1: "computeTurnoverPrice
            (JObj [(''bedrooms'', JNum (Fin (of_nat b))),
                   (''bathrooms'', JNum (Fin (of_nat c))),
                   (''addOns'', JObj [(''deepClean'', JBool dc), (''premiumLinen'', JBool pl)])])
          = Inr (JObj [(''total'', JNum (spec_total (Fin (of_nat b)) (Fin (of_nat c)) dc pl)),
                       (''breakdown'', JObj ?br),
                       (''currency'', JStr ''AUD'')])"
    unfolding t by (simp add: computeTurnoverPrice_fields turnover_price_numbers)
  have r2: "map fst ?br = [''base'', ''bedroomsCost'', ''bathroomsCost'', ''deepClean'', ''premiumLinen'']"
    by simp
  have r3: "length (number_values ?br) = 5"
    by (simp add: number_values_def)
  have r4: "sum_values ?br = spec_total (Fin (of_nat b)) (Fin (of_nat c)) dc pl"
    unfolding t by (simp add: sum_values_def number_values_def)
  show ?thesis
    by (rule exI[of _ ?br], intro conjI impI; (rule r1 r2 r3 r4 | erule spec_total_exact))
qed

theorem computeTurnoverPrice_total_witness:
  "20 * 2 + 15 * 1 + 210 \<le> (2::nat) ^ 53
   \<and> (\<exists>br. computeTurnoverPrice
              (JObj [(''bedrooms'', JNum (Fin 2)), (''bathrooms'', JNum (Fin 1)),
                     (''addOns'', JObj [(''deepClean'', JBool False), (''premiumLinen'', JBool False)])])
            = Inr (JObj [(''total'', JNum (Fin 140)), (''breakdown'', JObj br), (''currency'', JStr ''AUD'')]))"
proof -
  have h: "20 * 2 + 15 * 1 + 210 \<le> (2::nat) ^ 53" by simp
  from computeTurnoverPrice_total[of 2 1 False False]
  obtain br where
    "computeTurnoverPrice
       (JObj [(''bedrooms'', JNum (Fin (of_nat 2))), (''bathrooms'', JNum (Fin (of_nat 1))),
              (''addOns'', JObj [(''deepClean'', JBool False), (''premiumLinen'', JBool False)])])
     = Inr (JObj [(''total'', JNum (spec_total (Fin (of_nat 2)) (Fin (of_nat 1)) False False)),
                  (''breakdown'', JObj br), (''currency'', JStr ''AUD'')])"
    and "20 * 2 + 15 * 1 + 210 \<le> (2::nat) ^ 53 \<longrightarrow>
         spec_total (Fin (of_nat 2)) (Fin (of_nat 1)) False False
         = Fin (of_nat (85 + 20 * 2 + 15 * 1 + (if False then 90 else 0) + (if False then 35 else 0)))"
    by blast
  with h show ?thesis by simp
qed

lemma StringToNumber_abc: "StringToNumber ''abc'' = NaN"
  by (simp add: StringToNumber_def trim_def is_ws_def signed_decimal_def unsigned_decimal_def
      is_exp_mark_def mantissa_of_def digits1_def digit_of_def)

lemma or_zero_falsy: "\<not> truthy (JNum n) \<Longrightarrow> or_zero n = Fin 0"
  by (simp add: or_zero_def)

lemma ToNumber_JUndefined: "ToNumber JUndefined = Inr NaN"
  by (simp add: ToNumber_def)

lemma turnover_price_falsy_bedrooms:
  assumes "ToNumber v = Inr n" "\<not> truthy (JNum n)"
  shows "turnover_price v u a = turnover_price (JNum (Fin 0)) u a"
  using assms by (simp add: turnover_price_def or_zero_def)

lemma turnover_price_falsy_bathrooms:
  assumes "ToNumber v = Inr n" "\<not> truthy (JNum n)"
  shows "turnover_price u v a = turnover_price u (JNum (Fin 0)) a"
  using assms by (simp add: turnover_price_def or_zero_def)

lemma getp_total: "a \<noteq> JNull \<Longrightarrow> a \<noteq> JUndefined \<Longrightarrow> \<exists>x. getp a k = Inr x"
  by (cases a) simp_all

lemma turnover_price_returns:
  assumes "ToNumber v = Inr n" "ToNumber u = Inr m" "a \<noteq> JNull" "a \<noteq> JUndefined"
  shows "\<exists>r. turnover_price v u a = Inr r"
proof -
  from getp_total[OF assms(3,4)] obtain x where x: "getp a ''deepClean'' = Inr x" by blast
  from getp_total[OF assms(3,4)] obtain y where y: "getp a ''premiumLinen'' = Inr y" by blast
  show ?thesis using assms(1,2) x y by (simp add: turnover_price_def Let_def)
qed

subsection \<open>Negative doubles stay negative\<close>

lemma pow2_pos: "0 < pow2 e"
  by (simp add: pow2_def)

lemma pow2_shift_le: "pow2 (e - 52) \<le> pow2 e"
proof -
  consider "52 \<le> e" | "0 \<le> e" "e < 52" | "e < 0" by linarith
  then show ?thesis
  proof cases
    case 1
    then have "(2::rat) ^ nat (e - 52) \<le> 2 ^ nat e" by (intro power_increasing) simp_all
    with 1 show ?thesis by (simp add: pow2_def)
  next
    case 2
    have "1 / (2::rat) ^ nat (52 - e) \<le> 1" by simp
    also have "(1::rat) \<le> 2 ^ nat e" by simp
    finally show ?thesis using 2 by (simp add: pow2_def)
  next
    case 3
    then have "(2::rat) ^ nat (- e) \<le> 2 ^ nat (52 - e)" by (intro power_increasing) simp_all
    then have "1 / (2::rat) ^ nat (52 - e) \<le> 1 / 2 ^ nat (- e)"
      by (intro divide_left_mono) simp_all
    with 3 show ?thesis by (simp add: pow2_def)
  qed
qed

lemma pow2_neg_mono:
  assumes "a \<le> b" "b \<le> 0"
  shows "pow2 a \<le> pow2 b"
proof (cases "b = 0")
  case True
  have "1 / (2::rat) ^ nat (- a) \<le> 1" by simp
  with assms True show ?thesis by (cases "a = 0") (simp_all add: pow2_def)
next
  case False
  with assms have neg: "a < 0" "b < 0" by simp_all
  from assms have "(2::rat) ^ nat (- b) \<le> 2 ^ nat (- a)" by (intro power_increasing) simp_all
  then have "1 / (2::rat) ^ nat (- a) \<le> 1 / 2 ^ nat (- b)"
    by (intro divide_left_mono) simp_all
  with neg show ?thesis by (simp add: pow2_def)
qed

lemma pow2_ilog2_le:
  assumes "0 < q"
  shows "pow2 (ilog2 q) \<le> q"
proof (cases "1 \<le> q")
  case True
  define z where "z = \<lfloor>q\<rfloor>"
  have zq: "of_int z \<le> q" by (simp add: z_def)
  have f: "0 < z" using True by (simp add: z_def)
  from bitlen_bounds[OF f] have lo: "2 ^ nat (bitlen z - 1) \<le> z" and hi: "z < 2 ^ nat (bitlen z)"
    by simp_all
  have "1 \<le> bitlen z"
  proof (rule ccontr)
    assume "\<not> 1 \<le> bitlen z"
    then have "nat (bitlen z) = 0" by simp
    with hi have "z < 1" by simp
    with f show False by linarith
  qed
  then have e: "0 \<le> bitlen z - 1" by simp
  have "(2::rat) ^ nat (bitlen z - 1) = of_int (2 ^ nat (bitlen z - 1))" by simp
  also have "\<dots> \<le> of_int z" using lo by (simp only: of_int_le_iff)
  also have "\<dots> \<le> q" by (rule zq)
  finally show ?thesis using True e by (simp add: ilog2_def pow2_def z_def[symmetric])
next
  case False
  with assms have s: "1 < 1 / q" by simp
  define n where "n = \<lceil>1 / q\<rceil>"
  have n: "1 / q \<le> of_int n" by (simp add: n_def)
  with s have "(1::rat) < of_int n" by linarith
  then have "1 < n" by simp
  then have m: "0 < n - 1" by simp
  define k where "k = bitlen (n - 1)"
  from bitlen_bounds[OF m] have hi: "n - 1 < 2 ^ nat k" by (simp add: k_def)
  have k1: "1 \<le> k"
  proof (rule ccontr)
    assume "\<not> 1 \<le> k"
    then have "nat k = 0" by simp
    with hi m show False by simp
  qed
  from hi have "n \<le> 2 ^ nat k" by simp
  then have "(of_int n :: rat) \<le> of_int (2 ^ nat k)" by (simp only: of_int_le_iff)
  then have "(of_int n :: rat) \<le> 2 ^ nat k" by simp
  with n have "1 / q \<le> 2 ^ nat k" by linarith
  with assms have "1 / 2 ^ nat k \<le> q"
    by (simp add: field_simps)
  then show ?thesis using False k1 by (simp add: ilog2_def pow2_def n_def[symmetric] k_def[symmetric])
qed

lemma ulp_le:
  assumes "pow2 (- 1074) \<le> a"
  shows "pow2 (max (ilog2 a) (- 1022) - 52) \<le> a"
proof (cases "- 1022 \<le> ilog2 a")
  case True
  have "0 < a" using assms pow2_pos[of "- 1074"] by linarith
  from pow2_shift_le[of "ilog2 a"] pow2_ilog2_le[OF this] True show ?thesis by (simp add: max_def)
next
  case False
  then have "max (ilog2 a) (- 1022) - 52 = - 1074" by simp
  with assms show ?thesis by simp
qed

lemma round_half_even_le: "x \<le> - 1 \<Longrightarrow> round_half_even x \<le> - 1"
proof -
  assume x: "x \<le> - 1"
  then have f: "\<lfloor>x\<rfloor> \<le> - 1" by (simp add: floor_le_iff)
  show ?thesis
  proof (cases "\<lfloor>x\<rfloor> = - 1")
    case True
    then have "- 1 \<le> x" by (metis of_int_floor_le of_int_minus of_int_1)
    with x have "x = - 1" by simp
    moreover have "\<lfloor>- 1 :: rat\<rfloor> = - 1" using floor_uminus_of_int[of 1, where 'a = rat] by simp
    ultimately show ?thesis by (simp add: round_half_even_def Let_def)
  next
    case False
    with f have "\<lfloor>x\<rfloor> + 1 \<le> - 1" by simp
    with f show ?thesis by (simp add: round_half_even_def Let_def)
  qed
qed

lemma fl_negative:
  assumes "q \<le> - pow2 (- 1074)"
  shows "negative (fl q)"
proof -
  have q: "q < 0" using assms pow2_pos[of "- 1074"] by linarith
  define u where "u = pow2 (max (ilog2 \<bar>q\<bar>) (- 1022) - 52)"
  have upos: "0 < u" by (simp add: u_def pow2_pos)
  have "pow2 (- 1074) \<le> \<bar>q\<bar>" using assms q by simp
  from ulp_le[OF this] have "u \<le> \<bar>q\<bar>" by (simp add: u_def)
  with q have "q \<le> - u" by simp
  with upos have "q / u \<le> - 1" by (simp add: field_simps)
  then have "round_half_even (q / u) \<le> - 1" by (rule round_half_even_le)
  then have "(of_int (round_half_even (q / u)) :: rat) \<le> - 1"
    by (metis of_int_le_iff of_int_minus of_int_1)
  with upos have "of_int (round_half_even (q / u)) * u \<le> - 1 * u"
    by (intro mult_right_mono) simp_all
  with upos have v: "of_int (round_half_even (q / u)) * u < 0" by simp
  show ?thesis
    using q v unfolding fl_def u_def[symmetric] Let_def by (simp add: negative_def)
qed

lemma double_negative_bound:
  assumes "fl r = Fin r" "r < 0"
  shows "r \<le> - pow2 (- 1074)"
proof -
  define u where "u = pow2 (max (ilog2 \<bar>r\<bar>) (- 1022) - 52)"
  define k where "k = round_half_even (r / u)"
  have upos: "0 < u" by (simp add: u_def pow2_pos)
  from assms have "Fin (of_int k * u) = Fin r"
    unfolding fl_def u_def[symmetric] k_def[symmetric] Let_def by (simp split: if_splits)
  then have r: "r = of_int k * u" by simp
  with assms(2) upos have "(of_int k :: rat) < 0" by (simp add: mult_less_0_iff)
  then have "k \<le> - 1" by simp
  then have "(of_int k :: rat) \<le> - 1" by (metis of_int_le_iff of_int_minus of_int_1)
  with upos have "of_int k * u \<le> - 1 * u" by (intro mult_right_mono) simp_all
  then have ru: "r \<le> - u" using r by simp
  have "pow2 (- 1074) \<le> u"
  proof -
    define e where "e = max (ilog2 \<bar>r\<bar>) (- 1022)"
    have e: "- 1022 \<le> e" by (simp add: e_def)
    have "pow2 (- 1074) \<le> pow2 (e - 52)"
    proof (cases "52 \<le> e")
      case True
      have "pow2 (- 1074) \<le> pow2 0" by (rule pow2_neg_mono) simp_all
      also have "pow2 0 \<le> pow2 (e - 52)" using True by (simp add: pow2_def)
      finally show ?thesis .
    next
      case False
      with e show ?thesis by (intro pow2_neg_mono) simp_all
    qed
    then show ?thesis by (simp add: u_def e_def)
  qed
  with ru show ?thesis by linarith
qed

lemma js_mul_negative:
  assumes "fl r = Fin r" "r < 0" "1 \<le> c"
  shows "negative (js_mul (Fin r) (Fin c))"
proof -
  from assms(2,3) have "r * c \<le> r * 1" by (intro mult_left_mono_neg) simp_all
  with double_negative_bound[OF assms(1,2)] have "r * c \<le> - pow2 (- 1074)" by simp
  then show ?thesis by (simp add: fl_negative)
qed


lemma or_zero_cases: "or_zero n = (if n = NaN \<or> n = Fin 0 then Fin 0 else n)"
  by (cases n) (simp_all add: or_zero_def)

lemma negative_cost:
  assumes "negative n" "is_double n" "1 \<le> c"
  shows "negative (js_mul (or_zero n) (Fin c))"
proof (cases n)
  case (Fin r)
  with assms(1) have r: "r < 0" by (simp add: negative_def)
  from Fin assms(2) have d: "fl r = Fin r" by (simp add: is_double_def)
  from r have "or_zero (Fin r) = Fin r" by (simp add: or_zero_def)
  with js_mul_negative[OF d r assms(3)] Fin show ?thesis by simp
next
  case NegInf
  with assms(3) show ?thesis by (simp add: or_zero_def inf_of_sign_def negative_def)
qed (use assms(1) in \<open>simp_all add: negative_def\<close>)

lemma ToNumber_default:
  assumes "ToNumber v = Inr n"
  shows "\<exists>k. ToNumber (if v = JUndefined then JNum (Fin 0) else v) = Inr k \<and> or_zero k = or_zero n"
proof (cases "v = JUndefined")
  case True
  with assms have "n = NaN" by (simp add: ToNumber_def)
  with True show ?thesis by (simp add: or_zero_def)
next
  case False
  with assms show ?thesis by simp
qed

lemma turnover_price_result:
  assumes "ToNumber v = Inr n" "ToNumber u = Inr m" "a \<noteq> JNull" "a \<noteq> JUndefined"
  shows "\<exists>d l. (d = Fin 90 \<or> d = Fin 0) \<and> (l = Fin 35 \<or> l = Fin 0)
         \<and> turnover_price v u a
           = Inr (JObj [(''total'', JNum (js_add (js_add (js_add (js_add (Fin 85) (js_mul (or_zero n) (Fin 20)))
                                   (js_mul (or_zero m) (Fin 15))) d) l)),
                        (''breakdown'', JObj
                           [(''base'', JNum (Fin 85)),
                            (''bedroomsCost'', JNum (js_mul (or_zero n) (Fin 20))),
                            (''bathroomsCost'', JNum (js_mul (or_zero m) (Fin 15))),
                            (''deepClean'', JNum d),
                            (''premiumLinen'', JNum l)]),
                        (''currency'', JStr ''AUD'')])"
proof -
  from getp_total[OF assms(3,4)] obtain x where x: "getp a ''deepClean'' = Inr x" by blast
  from getp_total[OF assms(3,4)] obtain y where y: "getp a ''premiumLinen'' = Inr y" by blast
  let ?d = "if truthy x then Fin 90 else Fin 0"
  let ?l = "if truthy y then Fin 35 else Fin 0"
  have d: "?d = Fin 90 \<or> ?d = Fin 0" and l: "?l = Fin 35 \<or> ?l = Fin 0" by simp_all
  have r: "turnover_price v u a
           = Inr (JObj [(''total'', JNum (js_add (js_add (js_add (js_add (Fin 85) (js_mul (or_zero n) (Fin 20)))
                                   (js_mul (or_zero m) (Fin 15))) ?d) ?l)),
                        (''breakdown'', JObj
                           [(''base'', JNum (Fin 85)),
                            (''bedroomsCost'', JNum (js_mul (or_zero n) (Fin 20))),
                            (''bathroomsCost'', JNum (js_mul (or_zero m) (Fin 15))),
                            (''deepClean'', JNum ?d),
                            (''premiumLinen'', JNum ?l)]),
                        (''currency'', JStr ''AUD'')])"
    using assms(1,2) x y by (simp add: turnover_price_def pricing_consts Let_def)
  show ?thesis
    by (rule exI[of _ ?d], rule exI[of _ ?l], intro conjI; (rule d l r))
qed

lemma computeTurnoverPrice_result:
  assumes "ToNumber v = Inr n" "ToNumber u = Inr m" "a \<noteq> JNull"
  shows "\<exists>d l. (d = Fin 90 \<or> d = Fin 0) \<and> (l = Fin 35 \<or> l = Fin 0)
         \<and> computeTurnoverPrice (JObj [(''bedrooms'', v), (''bathrooms'', u), (''addOns'', a)])
           = Inr (JObj [(''total'', JNum (js_add (js_add (js_add (js_add (Fin 85) (js_mul (or_zero n) (Fin 20)))
                                   (js_mul (or_zero m) (Fin 15))) d) l)),
                        (''breakdown'', JObj
                           [(''base'', JNum (Fin 85)),
                            (''bedroomsCost'', JNum (js_mul (or_zero n) (Fin 20))),
                            (''bathroomsCost'', JNum (js_mul (or_zero m) (Fin 15))),
                            (''deepClean'', JNum d),
                            (''premiumLinen'', JNum l)]),
                        (''currency'', JStr ''AUD'')])"
proof -
  from ToNumber_default[OF assms(1)] obtain k where
    k: "ToNumber (if v = JUndefined then JNum (Fin 0) else v) = Inr k" "or_zero k = or_zero n"
    by blast
  from ToNumber_default[OF assms(2)] obtain j where
    j: "ToNumber (if u = JUndefined then JNum (Fin 0) else u) = Inr j" "or_zero j = or_zero m"
    by blast
  from assms(3) have a: "(if a = JUndefined then JObj [] else a) \<noteq> JNull"
    "(if a = JUndefined then JObj [] else a) \<noteq> JUndefined"
    by simp_all
  from turnover_price_result[OF k(1) j(1) a] show ?thesis
    unfolding computeTurnoverPrice_fields k(2) j(2) .
qed

text \<open>
  Claim C2, as the code has it. Take any bedrooms value \<open>v\<close> and bathrooms value \<open>u\<close>
  that \<^verbatim>\<open>Number()\<close> converts, to the numbers \<open>n\<close> and \<open>m\<close>, and any add-ons other than
  null (an object whose own \<^verbatim>\<open>toString\<close> is not a function makes \<^verbatim>\<open>Number()\<close> throw,
  and so does reading a flag of null).
  \<^item> If \<open>n\<close> is not-a-number or zero (the string \<^verbatim>\<open>"abc"\<close>, null, undefined, the empty
    string), \<open>v\<close> is priced as the count 0, as bedrooms and as bathrooms alike.
  \<^item> The function returns a result rather than raising: the costs are
    \<^verbatim>\<open>(n || 0) * 20\<close> and \<^verbatim>\<open>(m || 0) * 15\<close>, the add-ons cost 90 or 0 and 35 or 0, and the
    total is the sum from the base 85.
  \<^item> \<^verbatim>\<open>n || 0\<close> is 0 if \<open>n\<close> is not-a-number or zero, and \<open>n\<close> itself otherwise.
  \<^item> A negative \<open>n\<close> is therefore not replaced, and the cost of a negative double
    is negative, at either rate: a product of doubles rounds to a double, and a
    negative double times 20 or 15 never rounds to zero.

  The theorem after the witness shows \<open>-1\<close> bedroom priced at \<open>-20\<close>.
\<close>

theorem computeTurnoverPrice_falsy_count:
  "(ToNumber v = Inr n \<and> \<not> truthy (JNum n) \<longrightarrow>
       computeTurnoverPrice (JObj [(''bedrooms'', v), (''bathrooms'', u), (''addOns'', a)])
       = computeTurnoverPrice (JObj [(''bedrooms'', JNum (Fin 0)), (''bathrooms'', u), (''addOns'', a)])
     \<and> computeTurnoverPrice (JObj [(''bedrooms'', u), (''bathrooms'', v), (''addOns'', a)])
       = computeTurnoverPrice (JObj [(''bedrooms'', u), (''bathrooms'', JNum (Fin 0)), (''addOns'', a)]))
   \<and> (ToNumber v = Inr n \<and> ToNumber u = Inr m \<and> a \<noteq> JNull \<longrightarrow>
       (\<exists>d l. (d = Fin 90 \<or> d = Fin 0) \<and> (l = Fin 35 \<or> l = Fin 0)
         \<and> computeTurnoverPrice (JObj [(''bedrooms'', v), (''bathrooms'', u), (''addOns'', a)])
           = Inr (JObj [(''total'', JNum (js_add (js_add (js_add (js_add (Fin 85) (js_mul (or_zero n) (Fin 20)))
                                   (js_mul (or_zero m) (Fin 15))) d) l)),
                        (''breakdown'', JObj
                           [(''base'', JNum (Fin 85)),
                            (''bedroomsCost'', JNum (js_mul (or_zero n) (Fin 20))),
                            (''bathroomsCost'', JNum (js_mul (or_zero m) (Fin 15))),
                            (''deepClean'', JNum d),
                            (''premiumLinen'', JNum l)]),
                        (''currency'', JStr ''AUD'')])))
   \<and> or_zero n = (if n = NaN \<or> n = Fin 0 then Fin 0 else n)
   \<and> (negative n \<longrightarrow>
        or_zero n = n
      \<and> (is_double n \<longrightarrow> negative (js_mul (or_zero n) (Fin 20)) \<and> negative (js_mul (or_zero n) (Fin 15))))"
proof (intro conjI impI; (elim conjE)?)
  show "or_zero n = (if n = NaN \<or> n = Fin 0 then Fin 0 else n)" by (rule or_zero_cases)
next
  assume "negative n"
  then show "or_zero n = n" by (cases n) (simp_all add: negative_def or_zero_def)
next
  assume "negative n" "is_double n"
  then show "negative (js_mul (or_zero n) (Fin 20))" by (rule negative_cost) simp
next
  assume "negative n" "is_double n"
  then show "negative (js_mul (or_zero n) (Fin 15))" by (rule negative_cost) simp
next
  assume v: "ToNumber v = Inr n" and n: "\<not> truthy (JNum n)"
  have v': "ToNumber (if v = JUndefined then JNum (Fin 0) else v) = Inr (if v = JUndefined then Fin 0 else n)"
    using v by simp
  have n': "\<not> truthy (JNum (if v = JUndefined then Fin 0 else n))"
    using n by simp
  show "computeTurnoverPrice (JObj [(''bedrooms'', v), (''bathrooms'', u), (''addOns'', a)])
         = computeTurnoverPrice (JObj [(''bedrooms'', JNum (Fin 0)), (''bathrooms'', u), (''addOns'', a)])"
    unfolding computeTurnoverPrice_fields using turnover_price_falsy_bedrooms[OF v' n'] by simp
next
  assume v: "ToNumber v = Inr n" and n: "\<not> truthy (JNum n)"
  have v': "ToNumber (if v = JUndefined then JNum (Fin 0) else v) = Inr (if v = JUndefined then Fin 0 else n)"
    using v by simp
  have n': "\<not> truthy (JNum (if v = JUndefined then Fin 0 else n))"
    using n by simp
  show "computeTurnoverPrice (JObj [(''bedrooms'', u), (''bathrooms'', v), (''addOns'', a)])
         = computeTurnoverPrice (JObj [(''bedrooms'', u), (''bathrooms'', JNum (Fin 0)), (''addOns'', a)])"
    unfolding computeTurnoverPrice_fields using turnover_price_falsy_bathrooms[OF v' n'] by simp
next
  assume "ToNumber v = Inr n" "ToNumber u = Inr m" "a \<noteq> JNull"
  then show "\<exists>d l. (d = Fin 90 \<or> d = Fin 0) \<and> (l = Fin 35 \<or> l = Fin 0)
         \<and> computeTurnoverPrice (JObj [(''bedrooms'', v), (''bathrooms'', u), (''addOns'', a)])
           = Inr (JObj [(''total'', JNum (js_add (js_add (js_add (js_add (Fin 85) (js_mul (or_zero n) (Fin 20)))
                                   (js_mul (or_zero m) (Fin 15))) d) l)),
                        (''breakdown'', JObj
                           [(''base'', JNum (Fin 85)),
                            (''bedroomsCost'', JNum (js_mul (or_zero n) (Fin 20))),
                            (''bathroomsCost'', JNum (js_mul (or_zero m) (Fin 15))),
                            (''deepClean'', JNum d),
                            (''premiumLinen'', JNum l)]),
                        (''currency'', JStr ''AUD'')])"
    by (rule computeTurnoverPrice_result)
qed

theorem computeTurnoverPrice_falsy_count_witness:
  "ToNumber (JStr ''abc'') = Inr NaN \<and> \<not> truthy (JNum NaN)
   \<and> ToNumber JNull = Inr (Fin 0) \<and> \<not> truthy (JNum (Fin 0))
   \<and> computeTurnoverPrice (JObj [(''bedrooms'', JStr ''abc''), (''bathrooms'', JNull), (''addOns'', JObj [])])
     = computeTurnoverPrice (JObj [(''bedrooms'', JNum (Fin 0)), (''bathrooms'', JNum (Fin 0)), (''addOns'', JObj [])])
   \<and> computeTurnoverPrice (JObj [(''bedrooms'', JNum (Fin 0)), (''bathrooms'', JNum (Fin 0)), (''addOns'', JObj [])])
     = Inr (JObj [(''total'', JNum (Fin 85)),
                  (''breakdown'', JObj [(''base'', JNum (Fin 85)), (''bedroomsCost'', JNum (Fin 0)),
                                        (''bathroomsCost'', JNum (Fin 0)), (''deepClean'', JNum (Fin 0)),
                                        (''premiumLinen'', JNum (Fin 0))]),
                  (''currency'', JStr ''AUD'')])
   \<and> ToNumber (JNum (Fin (- 1))) = Inr (Fin (- 1)) \<and> JObj [] \<noteq> JNull
   \<and> negative (Fin (- 1)) \<and> is_double (Fin (- 1))
   \<and> (\<exists>r. computeTurnoverPrice (JObj [(''bedrooms'', JNum (Fin (- 1))), (''bathrooms'', JStr ''abc''), (''addOns'', JObj [])])
          = Inr r)
   \<and> or_zero (Fin (- 1)) = Fin (- 1)
   \<and> negative (js_mul (or_zero (Fin (- 1))) (Fin 20))
   \<and> negative (js_mul (or_zero (Fin (- 1))) (Fin 15))"
proof -
  have abc: "ToNumber (JStr ''abc'') = Inr NaN" by (simp add: ToNumber_def StringToNumber_abc)
  have nul: "ToNumber JNull = Inr (Fin 0)" by (simp add: ToNumber_def)
  have t1: "\<not> truthy (JNum NaN)" and t2: "\<not> truthy (JNum (Fin 0))" by simp_all
  have neg1: "ToNumber (JNum (Fin (- 1))) = Inr (Fin (- 1))" by simp
  have obj: "JObj [] \<noteq> JNull" by simp
  have n1: "negative (Fin (- 1))" by (simp add: negative_def)
  have d1: "is_double (Fin (- 1))" using fl_of_int[of "- 1"] by (simp add: is_double_def)
  from computeTurnoverPrice_falsy_count[of "JStr ''abc''" NaN JNull "JObj []", THEN conjunct1, THEN mp,
      OF conjI[OF abc t1], THEN conjunct1]
  have 1: "computeTurnoverPrice (JObj [(''bedrooms'', JStr ''abc''), (''bathrooms'', JNull), (''addOns'', JObj [])])
         = computeTurnoverPrice (JObj [(''bedrooms'', JNum (Fin 0)), (''bathrooms'', JNull), (''addOns'', JObj [])])"
    .
  from computeTurnoverPrice_falsy_count[of JNull "Fin 0" "JNum (Fin 0)" "JObj []", THEN conjunct1, THEN mp,
      OF conjI[OF nul t2], THEN conjunct2]
  have 2: "computeTurnoverPrice (JObj [(''bedrooms'', JNum (Fin 0)), (''bathrooms'', JNull), (''addOns'', JObj [])])
         = computeTurnoverPrice (JObj [(''bedrooms'', JNum (Fin 0)), (''bathrooms'', JNum (Fin 0)), (''addOns'', JObj [])])"
    .
  have 3: "computeTurnoverPrice (JObj [(''bedrooms'', JNum (Fin 0)), (''bathrooms'', JNum (Fin 0)), (''addOns'', JObj [])])
     = Inr (JObj [(''total'', JNum (Fin 85)),
                  (''breakdown'', JObj [(''base'', JNum (Fin 85)), (''bedroomsCost'', JNum (Fin 0)),
                                        (''bathroomsCost'', JNum (Fin 0)), (''deepClean'', JNum (Fin 0)),
                                        (''premiumLinen'', JNum (Fin 0))]),
                  (''currency'', JStr ''AUD'')])"
    by (simp add: computeTurnoverPrice_fields turnover_price_def pricing_consts or_zero_def Let_def)
  note t = computeTurnoverPrice_falsy_count[of "JNum (Fin (- 1))" "Fin (- 1)" "JStr ''abc''" "JObj []" NaN]
  from t[THEN conjunct2, THEN conjunct1, THEN mp, OF conjI[OF neg1 conjI[OF abc obj]]]
  have 4: "\<exists>r. computeTurnoverPrice (JObj [(''bedrooms'', JNum (Fin (- 1))), (''bathrooms'', JStr ''abc''), (''addOns'', JObj [])])
          = Inr r"
    by (elim exE conjE) (rule exI)
  from t[THEN conjunct2, THEN conjunct2, THEN conjunct2, THEN mp, OF n1]
  have 5: "or_zero (Fin (- 1)) = Fin (- 1)"
    and 6: "is_double (Fin (- 1)) \<longrightarrow> negative (js_mul (or_zero (Fin (- 1))) (Fin 20)) \<and> negative (js_mul (or_zero (Fin (- 1))) (Fin 15))"
    by (rule conjunct1, rule conjunct2)
  from 6[THEN mp, OF d1]
  have 7: "negative (js_mul (or_zero (Fin (- 1))) (Fin 20))"
    and 8: "negative (js_mul (or_zero (Fin (- 1))) (Fin 15))"
    by (rule conjunct1, rule conjunct2)
  show ?thesis
    by (intro conjI; (rule abc nul t1 t2 3 neg1 obj n1 d1 4 5 7 8 trans[OF 1 2]))
qed

text \<open>
  Claim C2, as stated, fails for negative numbers: one bedroom less than none lowers the
  total from 85 to 65.
\<close>

theorem computeTurnoverPrice_negative_counterexample:
  "computeTurnoverPrice (JObj [(''bedrooms'', JNum (Fin (- 1))), (''bathrooms'', JNum (Fin 0)), (''addOns'', JObj [])])
     = Inr (JObj [(''total'', JNum (Fin 65)),
                  (''breakdown'', JObj [(''base'', JNum (Fin 85)), (''bedroomsCost'', JNum (Fin (- 20))),
                                        (''bathroomsCost'', JNum (Fin 0)), (''deepClean'', JNum (Fin 0)),
                                        (''premiumLinen'', JNum (Fin 0))]),
                  (''currency'', JStr ''AUD'')])
   \<and> computeTurnoverPrice (JObj [(''bedrooms'', JNum (Fin (- 1))), (''bathrooms'', JNum (Fin 0)), (''addOns'', JObj [])])
     \<noteq> computeTurnoverPrice (JObj [(''bedrooms'', JNum (Fin 0)), (''bathrooms'', JNum (Fin 0)), (''addOns'', JObj [])])"
  by (simp add: computeTurnoverPrice_fields turnover_price_def pricing_consts or_zero_def Let_def)


section \<open>Handlers: exits and created documents\<close>

lemma and_then_Inr_iff: "and_then m f = Inr y \<longleftrightarrow> (\<exists>x. m = Inr x \<and> f x = Inr y)"
  by (cases m) simp_all

lemma and_then_Inl_iff: "and_then m f = Inl e \<longleftrightarrow> m = Inl e \<or> (\<exists>x. m = Inr x \<and> f x = Inl e)"
  by (cases m) simp_all

lemma raise_Inr_iff [simp]: "raise m = Inr x \<longleftrightarrow> m = Inr x"
  by (cases m) simp_all

lemma raise_not_Respond [simp]: "raise m \<noteq> Inl (Respond r)"
  by (cases m) simp_all

lemma unless_Inr_iff [simp]: "unless c r = Inr u \<longleftrightarrow> c"
  by (simp add: unless_def)

lemma unless_Respond_iff [simp]: "unless c r = Inl (Respond r') \<longleftrightarrow> \<not> c \<and> r' = r"
  by (auto simp: unless_def)

lemma status_sendError [simp]: "status (sendError code msg) = code"
  by (simp add: sendError_def)

lemma check_property_Respond: "check_property p = Inl (Respond r) \<Longrightarrow> status r = 400"
  by (auto simp: check_property_def and_then_Inl_iff)

lemma check_schedule_Respond: "check_schedule p = Inl (Respond r) \<Longrightarrow> status r = 400"
  by (auto simp: check_schedule_def and_then_Inl_iff)

lemma job_pricing_Respond [simp]: "job_pricing price nb nc a \<noteq> Inl (Respond r)"
  by (simp add: job_pricing_def)

lemma checklistDefault_Respond [simp]: "checklistDefault a \<noteq> Inl (Respond r)"
  by (auto simp: checklistDefault_def and_then_Inl_iff)

lemma addOns_flags_Respond [simp]: "addOns_flags a \<noteq> Inl (Respond r)"
  by (auto simp: addOns_flags_def and_then_Inl_iff)

lemma job_fields_Respond: "job_fields b = Inl (Respond r) \<Longrightarrow> status r = 400"
  by (auto simp: job_fields_def Let_def and_then_Inl_iff check_property_Respond check_schedule_Respond split: prod.splits)

lemma check_property_Inr:
  assumes "check_property p = Inr (address, nb, nc)"
  shows "\<exists>bed bath n m.
           getp p ''address'' = Inr address \<and> getp p ''bedrooms'' = Inr bed \<and> getp p ''bathrooms'' = Inr bath
         \<and> ToNumber bed = Inr n \<and> ToNumber bath = Inr m \<and> nb = JNum n \<and> nc = JNum m
         \<and> isPositiveInt (JNum n) \<and> isPositiveInt (JNum m)
         \<and> isNonEmptyString address \<and> truthy p \<and> typeof p = ''object''"
  using assms by (auto simp: check_property_def and_then_Inr_iff)

lemma job_fields_Inr:
  assumes "job_fields b = Inr fs"
  shows "\<exists>q sch prop flags pricing checklist notes price addOns property address nb nc.
           fs = [(''quoteId'', q), (''schedule'', sch), (''property'', prop), (''addOns'', flags),
                 (''pricing'', pricing), (''currency'', JStr ''AUD''), (''status'', JStr ''scheduled''),
                 (''checklist'', checklist), (''notes'', notes)]
         \<and> getp (js_or b (JObj [])) ''price'' = Inr price
         \<and> getp_default (js_or b (JObj [])) ''addOns'' (JObj []) = Inr addOns
         \<and> getp (js_or b (JObj [])) ''property'' = Inr property
         \<and> check_property property = Inr (address, nb, nc)
         \<and> job_pricing price nb nc addOns = Inr pricing
         \<and> checklistDefault addOns = Inr checklist"
  using assms by (auto simp: job_fields_def Let_def and_then_Inr_iff pricing_consts split: prod.splits)

lemma firestore_add_Inr:
  assumes "firestore_add c d w = (Inr i, w')"
  shows "docs w' c i = Some (resolve (server_time w) d)"
    and "has_FieldValue_serverTimestamp w' = has_FieldValue_serverTimestamp w"
  using assms by (auto simp: firestore_add_def Let_def called_def split: if_splits)

lemma with_timestamps_eq:
  "\<exists>created updated w1.
     with_timestamps fs w = (fs @ [(''createdAt'', created), (''updatedAt'', updated)], w1)
   \<and> server_time w1 = server_time w \<and> docs w1 = docs w
   \<and> (has_FieldValue_serverTimestamp w \<longrightarrow> created = JServerTimestamp \<and> updated = JServerTimestamp \<and> w1 = w)"
  by (auto simp: with_timestamps_def serverTimestamp_def read_clock_def Let_def split: prod.splits)

lemma create_document_created:
  assumes "create_document c failed checked w = (r, w')" and "status r = 201"
    and "status failed \<noteq> 201" and "\<And>r'. checked = Inl (Respond r') \<Longrightarrow> status r' \<noteq> 201"
  shows "\<exists>fs created updated i.
           checked = Inr fs
         \<and> body r = JObj (spread [(''ok'', JBool True), (''id'', JStr i)]
                            (fs @ [(''createdAt'', created), (''updatedAt'', updated)]))
         \<and> docs w' c i = Some (resolve (server_time w)
                                 (JObj (fs @ [(''createdAt'', created), (''updatedAt'', updated)])))
         \<and> (has_FieldValue_serverTimestamp w \<longrightarrow> created = JServerTimestamp \<and> updated = JServerTimestamp)"
proof (cases checked)
  case (Inl e)
  then show ?thesis using assms by (cases e) (auto simp: create_document_def)
next
  case (Inr fs)
  from with_timestamps_eq[of fs w] obtain created updated w1 where
    ts: "with_timestamps fs w = (fs @ [(''createdAt'', created), (''updatedAt'', updated)], w1)"
    and w1: "server_time w1 = server_time w"
    and fv: "has_FieldValue_serverTimestamp w \<longrightarrow> created = JServerTimestamp \<and> updated = JServerTimestamp \<and> w1 = w"
    by blast
  let ?data = "fs @ [(''createdAt'', created), (''updatedAt'', updated)]"
  have sd: "store_document c failed ?data w1 = (r, w')"
    using assms(1) Inr ts by (simp add: create_document_def)
  obtain res w2 where add: "firestore_add c (JObj ?data) w1 = (res, w2)" by (cases "firestore_add c (JObj ?data) w1")
  show ?thesis
  proof (cases res)
    case (Inl e)
    with sd add assms(2,3) show ?thesis by (simp add: store_document_def)
  next
    case i: (Inr i)
    with sd add have r: "r = \<lparr>status = 201, body = JObj (spread [(''ok'', JBool True), (''id'', JStr i)] ?data)\<rparr>"
      and w2: "w2 = w'" by (simp_all add: store_document_def)
    from firestore_add_Inr(1)[OF add[unfolded i w2]] w1
    have d: "docs w' c i = Some (resolve (server_time w) (JObj ?data))" by simp
    have b: "body r = JObj (spread [(''ok'', JBool True), (''id'', JStr i)] ?data)" using r by simp
    show ?thesis
      by (rule exI[of _ fs], rule exI[of _ created], rule exI[of _ updated], rule exI[of _ i],
          intro conjI; (rule Inr b d | use fv in blast))
  qed
qed

lemma post_jobs_created:
  assumes "post_jobs b w = (r, w')" and "status r = 201"
  shows "\<exists>fs created updated i.
           job_fields b = Inr fs
         \<and> body r = JObj (spread [(''ok'', JBool True), (''id'', JStr i)]
                            (fs @ [(''createdAt'', created), (''updatedAt'', updated)]))
         \<and> docs w' ''jobs'' i = Some (resolve (server_time w)
                                 (JObj (fs @ [(''createdAt'', created), (''updatedAt'', updated)])))
         \<and> (has_FieldValue_serverTimestamp w \<longrightarrow> created = JServerTimestamp \<and> updated = JServerTimestamp)"
proof (rule create_document_created)
  show "create_document ''jobs'' (sendError 500 ''Failed to create job'') (job_fields b) w = (r, w')"
    using assms(1) by (simp add: post_jobs_def)
  show "status r = 201" by fact
  show "status (sendError 500 ''Failed to create job'') \<noteq> 201" by simp
  show "status r' \<noteq> 201" if "job_fields b = Inl (Respond r')" for r'
    using job_fields_Respond[OF that] by simp
qed

lemma turnover_price_Inr:
  assumes "turnover_price v u a = Inr p"
  shows "\<exists>nb nc d l.
           ToNumber v = Inr nb \<and> ToNumber u = Inr nc
         \<and> (d = Fin 90 \<or> d = Fin 0) \<and> (l = Fin 35 \<or> l = Fin 0)
         \<and> p = JObj [(''total'', JNum (js_add (js_add (js_add (js_add (Fin 85) (js_mul (or_zero nb) (Fin 20)))
                                   (js_mul (or_zero nc) (Fin 15))) d) l)),
                      (''breakdown'', JObj
                         [(''base'', JNum (Fin 85)),
                          (''bedroomsCost'', JNum (js_mul (or_zero nb) (Fin 20))),
                          (''bathroomsCost'', JNum (js_mul (or_zero nc) (Fin 15))),
                          (''deepClean'', JNum d),
                          (''premiumLinen'', JNum l)]),
                      (''currency'', JStr ''AUD'')]"
proof -
  from assms obtain dc pl nb nc where
    n: "ToNumber v = Inr nb" "ToNumber u = Inr nc"
    and p: "p = JObj [(''total'', JNum (js_add (js_add (js_add (js_add (Fin 85) (js_mul (or_zero nb) (Fin 20)))
                                   (js_mul (or_zero nc) (Fin 15)))
                                   (if truthy dc then Fin 90 else Fin 0)) (if truthy pl then Fin 35 else Fin 0))),
                      (''breakdown'', JObj
                         [(''base'', JNum (Fin 85)),
                          (''bedroomsCost'', JNum (js_mul (or_zero nb) (Fin 20))),
                          (''bathroomsCost'', JNum (js_mul (or_zero nc) (Fin 15))),
                          (''deepClean'', JNum (if truthy dc then Fin 90 else Fin 0)),
                          (''premiumLinen'', JNum (if truthy pl then Fin 35 else Fin 0))]),
                      (''currency'', JStr ''AUD'')]"
    unfolding turnover_price_def and_then_Inr_iff pricing_consts Let_def by blast
  show ?thesis
    by (rule exI[of _ nb], rule exI[of _ nc], rule exI[of _ "if truthy dc then Fin 90 else Fin 0"],
        rule exI[of _ "if truthy pl then Fin 35 else Fin 0"], intro conjI; (rule n p | simp))
qed

lemma computeTurnoverPrice_Inr:
  "computeTurnoverPrice arg = Inr p \<Longrightarrow> \<exists>v u a. turnover_price v u a = Inr p"
  unfolding computeTurnoverPrice_def and_then_Inr_iff by blast

lemma turnover_price_resolve: "turnover_price v u a = Inr p \<Longrightarrow> resolve t p = p"
  by (drule turnover_price_Inr) (elim exE conjE, simp)

lemma job_pricing_resolve:
  assumes "job_pricing price nb nc a = Inr p"
  shows "resolve t p = p"
proof (cases "typeof price = ''number''")
  case True
  then obtain n where "price = JNum n" by (cases price) simp_all
  with True assms show ?thesis by (auto simp: job_pricing_def)
next
  case False
  with assms have "computeTurnoverPrice (JObj [(''bedrooms'', nb), (''bathrooms'', nc), (''addOns'', a)]) = Inr p"
    by (simp add: job_pricing_def)
  from computeTurnoverPrice_Inr[OF this] show ?thesis
    by (elim exE) (rule turnover_price_resolve)
qed

text \<open>
  Claim C4. For every job that \<^verbatim>\<open>POST /jobs\<close> creates (status 201): when the request's
  \<^verbatim>\<open>price\<close> is a number, the returned and the stored pricing are
  \<^verbatim>\<open>{total: price, breakdown: {customOverride: price}, currency: "AUD"}\<close>, whatever the
  bedrooms, bathrooms and add-ons; otherwise they are what \<^verbatim>\<open>computeTurnoverPrice\<close>
  returns for the property's bedrooms and bathrooms, as numbers, and the add-ons.
\<close>

theorem post_jobs_pricing:
  assumes "post_jobs b w = (r, w')" and "status r = 201"
  shows "\<exists>price addOns property address nb nc pricing i d.
           getp (js_or b (JObj [])) ''price'' = Inr price
         \<and> getp_default (js_or b (JObj [])) ''addOns'' (JObj []) = Inr addOns
         \<and> getp (js_or b (JObj [])) ''property'' = Inr property
         \<and> check_property property = Inr (address, nb, nc)
         \<and> getp (body r) ''pricing'' = Inr pricing
         \<and> getp (body r) ''id'' = Inr (JStr i)
         \<and> docs w' ''jobs'' i = Some d
         \<and> getp d ''pricing'' = Inr pricing
         \<and> (typeof price = ''number'' \<longrightarrow>
               pricing = JObj [(''total'', price),
                               (''breakdown'', JObj [(''customOverride'', price)]),
                               (''currency'', JStr ''AUD'')])
         \<and> (typeof price \<noteq> ''number'' \<longrightarrow>
               computeTurnoverPrice (JObj [(''bedrooms'', nb), (''bathrooms'', nc), (''addOns'', addOns)])
               = Inr pricing)"
proof -
  from post_jobs_created[OF assms] obtain fs created updated i where
    fs: "job_fields b = Inr fs"
    and body: "body r = JObj (spread [(''ok'', JBool True), (''id'', JStr i)]
                            (fs @ [(''createdAt'', created), (''updatedAt'', updated)]))"
    and doc: "docs w' ''jobs'' i = Some (resolve (server_time w)
                                 (JObj (fs @ [(''createdAt'', created), (''updatedAt'', updated)])))"
    by (elim exE conjE) (rule that; assumption)
  from job_fields_Inr[OF fs] obtain q sch pf flags pricing checklist nts price addOns property address nb nc
    where shape: "fs = [(''quoteId'', q), (''schedule'', sch), (''property'', pf), (''addOns'', flags),
                 (''pricing'', pricing), (''currency'', JStr ''AUD''), (''status'', JStr ''scheduled''),
                 (''checklist'', checklist), (''notes'', nts)]"
      and price: "getp (js_or b (JObj [])) ''price'' = Inr price"
      and addOns: "getp_default (js_or b (JObj [])) ''addOns'' (JObj []) = Inr addOns"
      and property: "getp (js_or b (JObj [])) ''property'' = Inr property"
      and checked: "check_property property = Inr (address, nb, nc)"
      and jp: "job_pricing price nb nc addOns = Inr pricing"
    by (elim exE conjE) (rule that; assumption)
  let ?d = "resolve (server_time w) (JObj (fs @ [(''createdAt'', created), (''updatedAt'', updated)]))"
  have 1: "getp (body r) ''pricing'' = Inr pricing"
    unfolding body shape by (simp add: spread_def)
  have 2: "getp (body r) ''id'' = Inr (JStr i)"
    unfolding body shape by (simp add: spread_def)
  have 3: "getp ?d ''pricing'' = Inr pricing"
    unfolding shape using job_pricing_resolve[OF jp] by simp
  have 4: "typeof price = ''number'' \<longrightarrow>
               pricing = JObj [(''total'', price),
                               (''breakdown'', JObj [(''customOverride'', price)]),
                               (''currency'', JStr ''AUD'')]"
    using jp by (auto simp: job_pricing_def pricing_consts)
  have 5: "typeof price \<noteq> ''number'' \<longrightarrow>
               computeTurnoverPrice (JObj [(''bedrooms'', nb), (''bathrooms'', nc), (''addOns'', addOns)])
               = Inr pricing"
    using jp by (auto simp: job_pricing_def)
  show ?thesis
    by (rule exI[of _ price], rule exI[of _ addOns], rule exI[of _ property], rule exI[of _ address],
        rule exI[of _ nb], rule exI[of _ nc], rule exI[of _ pricing], rule exI[of _ i], rule exI[of _ ?d],
        intro conjI; (rule price addOns property checked 1 2 doc 3 4 5))
qed

lemma isNonEmptyString_examples [simp]:
  "isNonEmptyString (JStr ''1 Main St'')"
  "isNonEmptyString (JStr ''2025-01-01T10:00:00Z'')"
  "isNonEmptyString (JStr ''2025-01-01T12:00:00Z'')"
  by (simp_all add: isNonEmptyString_def trim_def is_ws_def)

lemma isPositiveInt_examples [simp]:
  "isPositiveInt (JNum (Fin 2))" "isPositiveInt (JNum (Fin 1))"
  by (simp_all add: isPositiveInt_def Number_isInteger_def)

lemma example_job_fields:
  "\<exists>fs. job_fields example_job = Inr fs"
  by (simp add: job_fields_def example_job_def example_property_def js_or_def getp_default_def
      check_schedule_def check_property_def job_pricing_def checklistDefault_def addOns_flags_def Let_def)

lemma example_job_created: "status (fst (post_jobs example_job example_world)) = 201"
proof -
  obtain fs where fs: "job_fields example_job = Inr fs" using example_job_fields by blast
  show ?thesis
    by (simp add: post_jobs_def create_document_def fs with_timestamps_def serverTimestamp_def
        example_world_def store_document_def firestore_add_def call_fails_def called_def Let_def)
qed

lemma example_job_computed_fields:
  "\<exists>fs. job_fields example_job_computed = Inr fs"
  by (simp add: job_fields_def example_job_computed_def example_property_def js_or_def getp_default_def
      check_schedule_def check_property_def job_pricing_def checklistDefault_def addOns_flags_def Let_def
      computeTurnoverPrice_fields turnover_price_def)

lemma example_job_computed_created: "status (fst (post_jobs example_job_computed example_world)) = 201"
proof -
  obtain fs where fs: "job_fields example_job_computed = Inr fs" using example_job_computed_fields by blast
  show ?thesis
    by (simp add: post_jobs_def create_document_def fs with_timestamps_def serverTimestamp_def
        example_world_def store_document_def firestore_add_def call_fails_def called_def Let_def)
qed

lemma example_property_checked:
  "check_property example_property = Inr (a, nb, nc) \<Longrightarrow> nb = JNum (Fin 2) \<and> nc = JNum (Fin 1)"
  by (simp add: check_property_def example_property_def)

theorem post_jobs_pricing_witness:
  "status (fst (post_jobs example_job example_world)) = 201
   \<and> getp (body (fst (post_jobs example_job example_world))) ''pricing''
     = Inr (JObj [(''total'', JNum (Fin 200)),
                  (''breakdown'', JObj [(''customOverride'', JNum (Fin 200))]),
                  (''currency'', JStr ''AUD'')])
   \<and> status (fst (post_jobs example_job_computed example_world)) = 201
   \<and> getp (body (fst (post_jobs example_job_computed example_world))) ''pricing''
     = computeTurnoverPrice (JObj [(''bedrooms'', JNum (Fin 2)), (''bathrooms'', JNum (Fin 1)),
                                   (''addOns'', JObj [(''premiumLinen'', JBool True)])])"
proof -
  let ?r = "fst (post_jobs example_job example_world)"
  from post_jobs_pricing[OF prod.collapse[symmetric] example_job_created]
  obtain price pricing where
    1: "getp (js_or example_job (JObj [])) ''price'' = Inr price"
    and 2: "getp (body ?r) ''pricing'' = Inr pricing"
    and 3: "typeof price = ''number'' \<longrightarrow>
               pricing = JObj [(''total'', price),
                               (''breakdown'', JObj [(''customOverride'', price)]),
                               (''currency'', JStr ''AUD'')]"
    by (elim exE conjE) (rule that; assumption)
  from 1 have "price = JNum (Fin 200)" by (simp add: example_job_def js_or_def)
  with 2 3 have a: "getp (body ?r) ''pricing''
     = Inr (JObj [(''total'', JNum (Fin 200)),
                  (''breakdown'', JObj [(''customOverride'', JNum (Fin 200))]),
                  (''currency'', JStr ''AUD'')])" by simp
  let ?r' = "fst (post_jobs example_job_computed example_world)"
  from post_jobs_pricing[OF prod.collapse[symmetric] example_job_computed_created]
  obtain price addOns property address nb nc pricing where
    1: "getp (js_or example_job_computed (JObj [])) ''price'' = Inr price"
    and 2: "getp_default (js_or example_job_computed (JObj [])) ''addOns'' (JObj []) = Inr addOns"
    and 3: "getp (js_or example_job_computed (JObj [])) ''property'' = Inr property"
    and 4: "check_property property = Inr (address, nb, nc)"
    and 5: "getp (body ?r') ''pricing'' = Inr pricing"
    and 6: "typeof price \<noteq> ''number'' \<longrightarrow>
               computeTurnoverPrice (JObj [(''bedrooms'', nb), (''bathrooms'', nc), (''addOns'', addOns)])
               = Inr pricing"
    by (elim exE conjE) (rule that; assumption)
  from 1 have p: "price = JUndefined" by (simp add: example_job_computed_def js_or_def)
  from 2 have ao: "addOns = JObj [(''premiumLinen'', JBool True)]"
    by (simp add: example_job_computed_def js_or_def getp_default_def)
  from 3 have "property = example_property" by (simp add: example_job_computed_def js_or_def)
  with 4 have n: "nb = JNum (Fin 2) \<and> nc = JNum (Fin 1)" by (simp add: example_property_checked)
  from 5 6 p ao n have b: "getp (body ?r') ''pricing''
     = computeTurnoverPrice (JObj [(''bedrooms'', JNum (Fin 2)), (''bathrooms'', JNum (Fin 1)),
                                   (''addOns'', JObj [(''premiumLinen'', JBool True)])])" by simp
  show ?thesis using example_job_created example_job_computed_created a b by simp
qed

lemma checklistDefault_Inr:
  "checklistDefault a = Inr c \<Longrightarrow>
     \<exists>pl. getp a ''premiumLinen'' = Inr pl
        \<and> c = JObj [(''bathroomsDone'', JBool False),
                    (''kitchenDone'', JBool False),
                    (''floorsDone'', JBool False),
                    (''trashOut'', JBool False),
                    (''linensChanged'', JBool (truthy pl)),
                    (''restockSupplies'', JBool False),
                    (''photosTaken'', JBool False)]"
  by (auto simp: checklistDefault_def and_then_Inr_iff)

text \<open>
  Claim C5. For every job that \<^verbatim>\<open>POST /jobs\<close> creates, the returned checklist (and the
  stored one) has exactly the seven fields \<^verbatim>\<open>bathroomsDone\<close>, \<^verbatim>\<open>kitchenDone\<close>,
  \<^verbatim>\<open>floorsDone\<close>, \<^verbatim>\<open>trashOut\<close>, \<^verbatim>\<open>linensChanged\<close>, \<^verbatim>\<open>restockSupplies\<close>,
  \<^verbatim>\<open>photosTaken\<close>, all false except \<^verbatim>\<open>linensChanged\<close>, which is the truthiness of
  the request's \<^verbatim>\<open>addOns.premiumLinen\<close>.
\<close>

theorem post_jobs_checklist:
  assumes "post_jobs b w = (r, w')" and "status r = 201"
  shows "\<exists>addOns pl i d.
           getp_default (js_or b (JObj [])) ''addOns'' (JObj []) = Inr addOns
         \<and> getp addOns ''premiumLinen'' = Inr pl
         \<and> getp (body r) ''checklist''
           = Inr (JObj [(''bathroomsDone'', JBool False),
                        (''kitchenDone'', JBool False),
                        (''floorsDone'', JBool False),
                        (''trashOut'', JBool False),
                        (''linensChanged'', JBool (truthy pl)),
                        (''restockSupplies'', JBool False),
                        (''photosTaken'', JBool False)])
         \<and> getp (body r) ''id'' = Inr (JStr i)
         \<and> docs w' ''jobs'' i = Some d
         \<and> getp d ''checklist'' = getp (body r) ''checklist''"
proof -
  from post_jobs_created[OF assms] obtain fs created updated i where
    fs: "job_fields b = Inr fs"
    and body: "body r = JObj (spread [(''ok'', JBool True), (''id'', JStr i)]
                            (fs @ [(''createdAt'', created), (''updatedAt'', updated)]))"
    and doc: "docs w' ''jobs'' i = Some (resolve (server_time w)
                                 (JObj (fs @ [(''createdAt'', created), (''updatedAt'', updated)])))"
    by (elim exE conjE) (rule that; assumption)
  from job_fields_Inr[OF fs] obtain q sch pf flags pricing checklist nts price addOns property address nb nc
    where shape: "fs = [(''quoteId'', q), (''schedule'', sch), (''property'', pf), (''addOns'', flags),
                 (''pricing'', pricing), (''currency'', JStr ''AUD''), (''status'', JStr ''scheduled''),
                 (''checklist'', checklist), (''notes'', nts)]"
      and addOns: "getp_default (js_or b (JObj [])) ''addOns'' (JObj []) = Inr addOns"
      and cl: "checklistDefault addOns = Inr checklist"
    by (elim exE conjE) (rule that; assumption)
  from checklistDefault_Inr[OF cl] obtain pl where
    pl: "getp addOns ''premiumLinen'' = Inr pl"
    and c: "checklist = JObj [(''bathroomsDone'', JBool False),
                    (''kitchenDone'', JBool False),
                    (''floorsDone'', JBool False),
                    (''trashOut'', JBool False),
                    (''linensChanged'', JBool (truthy pl)),
                    (''restockSupplies'', JBool False),
                    (''photosTaken'', JBool False)]"
    by (elim exE conjE) (rule that; assumption)
  let ?d = "resolve (server_time w) (JObj (fs @ [(''createdAt'', created), (''updatedAt'', updated)]))"
  have 1: "getp (body r) ''checklist''
           = Inr (JObj [(''bathroomsDone'', JBool False),
                        (''kitchenDone'', JBool False),
                        (''floorsDone'', JBool False),
                        (''trashOut'', JBool False),
                        (''linensChanged'', JBool (truthy pl)),
                        (''restockSupplies'', JBool False),
                        (''photosTaken'', JBool False)])"
    unfolding body shape c by (simp add: spread_def)
  have 2: "getp (body r) ''id'' = Inr (JStr i)"
    unfolding body shape by (simp add: spread_def)
  have 3: "getp ?d ''checklist'' = getp (body r) ''checklist''"
    unfolding 1 unfolding shape c by simp
  show ?thesis
    by (rule exI[of _ addOns], rule exI[of _ pl], rule exI[of _ i], rule exI[of _ ?d],
        intro conjI; (rule addOns pl 1 2 doc 3))
qed

theorem post_jobs_checklist_witness:
  "status (fst (post_jobs example_job example_world)) = 201
   \<and> getp (body (fst (post_jobs example_job example_world))) ''checklist''
     = Inr (JObj [(''bathroomsDone'', JBool False),
                  (''kitchenDone'', JBool False),
                  (''floorsDone'', JBool False),
                  (''trashOut'', JBool False),
                  (''linensChanged'', JBool True),
                  (''restockSupplies'', JBool False),
                  (''photosTaken'', JBool False)])"
proof -
  let ?r = "fst (post_jobs example_job example_world)"
  from post_jobs_checklist[OF prod.collapse[symmetric] example_job_created]
  obtain addOns pl where
    1: "getp_default (js_or example_job (JObj [])) ''addOns'' (JObj []) = Inr addOns"
    and 2: "getp addOns ''premiumLinen'' = Inr pl"
    and 3: "getp (body ?r) ''checklist''
           = Inr (JObj [(''bathroomsDone'', JBool False),
                        (''kitchenDone'', JBool False),
                        (''floorsDone'', JBool False),
                        (''trashOut'', JBool False),
                        (''linensChanged'', JBool (truthy pl)),
                        (''restockSupplies'', JBool False),
                        (''photosTaken'', JBool False)])"
    by (elim exE conjE) (rule that; assumption)
  from 1 have "addOns = JObj [(''premiumLinen'', JBool True)]"
    by (simp add: example_job_def js_or_def getp_default_def)
  with 2 have "pl = JBool True" by simp
  with 3 example_job_created show ?thesis by simp
qed

lemma isPositiveInt_iff: "isPositiveInt (JNum n) \<longleftrightarrow> (\<exists>r. n = Fin r \<and> r \<in> \<int> \<and> 0 \<le> r)"
proof (cases n)
  case (Fin r)
  have "of_int \<lfloor>r\<rfloor> = r \<longleftrightarrow> r \<in> \<int>"
    by (metis Ints_cases Ints_of_int of_int_floor_cancel)
  with Fin show ?thesis by (simp add: isPositiveInt_def Number_isInteger_def)
qed (simp_all add: isPositiveInt_def Number_isInteger_def)

lemma check_property_counts:
  assumes "truthy p" "typeof p = ''object''" "getp p ''address'' = Inr a" "isNonEmptyString a"
    and "getp p ''bedrooms'' = Inr v" "getp p ''bathrooms'' = Inr u"
    and "ToNumber v = Inr n" "ToNumber u = Inr m"
  shows "check_property p =
           (if \<not> isPositiveInt (JNum n)
            then Inl (Respond (sendError 400 ''property.bedrooms must be a non-negative integer''))
            else if \<not> isPositiveInt (JNum m)
            then Inl (Respond (sendError 400 ''property.bathrooms must be a non-negative integer''))
            else Inr (a, JNum n, JNum m))"
  using assms by (simp add: check_property_def)

lemma ToNumber_toString: "ToNumber (JObj [(''toString'', x)]) = Inl TypeError"
  by (simp add: ToNumber_def)

lemma isNonEmptyString_names [simp]:
  "isNonEmptyString (JStr ''Alex'')" "isNonEmptyString (JStr ''a@b.com'')"
  by (simp_all add: isNonEmptyString_def trim_def is_ws_def)

text \<open>
  Claim C3 says that every value of \<^verbatim>\<open>property.bedrooms\<close> or \<^verbatim>\<open>property.bathrooms\<close>
  that is no non-negative integer is rejected with a 400 that names the field. That is
  so for every value that \<^verbatim>\<open>Number\<close> converts (\<open>check_property_counts\<close> above). It is
  not so for an object with an own \<^verbatim>\<open>toString\<close> property, which a JSON body can hold:
  \<^verbatim>\<open>Number\<close> throws on it, the validator is never reached, and the handler's \<^verbatim>\<open>catch\<close>
  answers 500, in any world.
\<close>

theorem toString_count_fails_with_500:
  "post_quotes example_quote_toString w = (sendError 500 ''Failed to create quote'', w)
   \<and> post_jobs example_job_toString w = (sendError 500 ''Failed to create job'', w)"
  by (simp add: post_quotes_def post_jobs_def create_document_def quote_fields_def job_fields_def
      example_quote_toString_def example_job_toString_def js_or_def getp_default_def
      check_schedule_def check_property_def ToNumber_toString)

lemma quote_fields_Respond: "quote_fields b = Inl (Respond r) \<Longrightarrow> status r = 400"
  by (auto simp: quote_fields_def Let_def and_then_Inl_iff check_property_Respond split: prod.splits if_splits)

lemma linen_items_Respond [simp]: "linen_items x \<noteq> Inl (Respond r)"
  by (auto simp: linen_items_def item_count_def and_then_Inl_iff)

lemma linen_fields_Respond: "linen_fields b = Inl (Respond r) \<Longrightarrow> status r = 400"
  by (auto simp: linen_fields_def Let_def and_then_Inl_iff)

lemma quote_fields_Inr:
  assumes "quote_fields b = Inr fs"
  shows "\<exists>h e ph pf prefs nts pricing property address nb nc addOns.
           fs = [(''hostName'', h), (''email'', e), (''phone'', ph), (''property'', pf),
                 (''preferences'', prefs), (''notes'', nts), (''pricing'', pricing),
                 (''currency'', JStr ''AUD''), (''status'', JStr ''quoted'')]
         \<and> getp (js_or b (JObj [])) ''property'' = Inr property
         \<and> check_property property = Inr (address, nb, nc)
         \<and> computeTurnoverPrice (JObj [(''bedrooms'', nb), (''bathrooms'', nc), (''addOns'', addOns)])
           = Inr pricing"
  using assms by (auto simp: quote_fields_def Let_def and_then_Inr_iff pricing_consts split: prod.splits)

lemma linen_fields_Inr:
  assumes "linen_fields b = Inr fs"
  shows "\<exists>j pf items sch nts.
           fs = [(''jobId'', j), (''property'', pf), (''items'', items), (''schedule'', sch),
                 (''pricing'', linen_pricing), (''currency'', JStr ''AUD''),
                 (''status'', JStr ''scheduled''), (''notes'', nts)]"
  using assms by (auto simp: linen_fields_def Let_def and_then_Inr_iff pricing_consts)

lemma post_quotes_created:
  assumes "post_quotes b w = (r, w')" and "status r = 201"
  shows "\<exists>fs created updated i.
           quote_fields b = Inr fs
         \<and> body r = JObj (spread [(''ok'', JBool True), (''id'', JStr i)]
                            (fs @ [(''createdAt'', created), (''updatedAt'', updated)]))
         \<and> docs w' ''quotes'' i = Some (resolve (server_time w)
                                 (JObj (fs @ [(''createdAt'', created), (''updatedAt'', updated)])))
         \<and> (has_FieldValue_serverTimestamp w \<longrightarrow> created = JServerTimestamp \<and> updated = JServerTimestamp)"
proof (rule create_document_created)
  show "create_document ''quotes'' (sendError 500 ''Failed to create quote'') (quote_fields b) w = (r, w')"
    using assms(1) by (simp add: post_quotes_def)
  show "status r = 201" by fact
  show "status (sendError 500 ''Failed to create quote'') \<noteq> 201" by simp
  show "status r' \<noteq> 201" if "quote_fields b = Inl (Respond r')" for r'
    using quote_fields_Respond[OF that] by simp
qed

lemma post_linen_orders_created:
  assumes "post_linen_orders b w = (r, w')" and "status r = 201"
  shows "\<exists>fs created updated i.
           linen_fields b = Inr fs
         \<and> body r = JObj (spread [(''ok'', JBool True), (''id'', JStr i)]
                            (fs @ [(''createdAt'', created), (''updatedAt'', updated)]))
         \<and> docs w' ''linen_orders'' i = Some (resolve (server_time w)
                                 (JObj (fs @ [(''createdAt'', created), (''updatedAt'', updated)])))
         \<and> (has_FieldValue_serverTimestamp w \<longrightarrow> created = JServerTimestamp \<and> updated = JServerTimestamp)"
proof (rule create_document_created)
  show "create_document ''linen_orders'' (sendError 500 ''linen_order_failed'') (linen_fields b) w = (r, w')"
    using assms(1) by (simp add: post_linen_orders_def)
  show "status r = 201" by fact
  show "status (sendError 500 ''linen_order_failed'') \<noteq> 201" by simp
  show "status r' \<noteq> 201" if "linen_fields b = Inl (Respond r')" for r'
    using linen_fields_Respond[OF that] by simp
qed

text \<open>
  Claim C7. For every linen order that \<^verbatim>\<open>POST /linen/orders\<close> creates, whatever the items,
  the returned and the stored pricing are
  \<^verbatim>\<open>{total: 45, breakdown: {pickup: 10, processing: 25, delivery: 10}, currency: "AUD"}\<close>.
\<close>

theorem post_linen_orders_pricing:
  assumes "post_linen_orders b w = (r, w')" and "status r = 201"
  shows "\<exists>i d.
           getp (body r) ''pricing''
           = Inr (JObj [(''total'', JNum (Fin 45)),
                        (''breakdown'', JObj [(''pickup'', JNum (Fin 10)),
                                              (''processing'', JNum (Fin 25)),
                                              (''delivery'', JNum (Fin 10))]),
                        (''currency'', JStr ''AUD'')])
         \<and> getp (body r) ''id'' = Inr (JStr i)
         \<and> docs w' ''linen_orders'' i = Some d
         \<and> getp d ''pricing'' = getp (body r) ''pricing''"
proof -
  from post_linen_orders_created[OF assms] obtain fs created updated i where
    fs: "linen_fields b = Inr fs"
    and body: "body r = JObj (spread [(''ok'', JBool True), (''id'', JStr i)]
                            (fs @ [(''createdAt'', created), (''updatedAt'', updated)]))"
    and doc: "docs w' ''linen_orders'' i = Some (resolve (server_time w)
                                 (JObj (fs @ [(''createdAt'', created), (''updatedAt'', updated)])))"
    by (elim exE conjE) (rule that; assumption)
  from linen_fields_Inr[OF fs] obtain j pf items sch nts where
    shape: "fs = [(''jobId'', j), (''property'', pf), (''items'', items), (''schedule'', sch),
                 (''pricing'', linen_pricing), (''currency'', JStr ''AUD''),
                 (''status'', JStr ''scheduled''), (''notes'', nts)]"
    by (elim exE conjE) (rule that; assumption)
  let ?d = "resolve (server_time w) (JObj (fs @ [(''createdAt'', created), (''updatedAt'', updated)]))"
  have 1: "getp (body r) ''pricing''
           = Inr (JObj [(''total'', JNum (Fin 45)),
                        (''breakdown'', JObj [(''pickup'', JNum (Fin 10)),
                                              (''processing'', JNum (Fin 25)),
                                              (''delivery'', JNum (Fin 10))]),
                        (''currency'', JStr ''AUD'')])"
    unfolding body shape by (simp add: spread_def linen_pricing_def pricing_consts)
  have 2: "getp (body r) ''id'' = Inr (JStr i)"
    unfolding body shape by (simp add: spread_def)
  have 3: "getp ?d ''pricing'' = getp (body r) ''pricing''"
    unfolding 1 unfolding shape by (simp add: linen_pricing_def pricing_consts)
  show ?thesis
    by (rule exI[of _ i], rule exI[of _ ?d], intro conjI; (rule 1 2 doc 3))
qed

lemma example_linen_fields: "\<exists>fs. linen_fields example_linen_order = Inr fs"
  by (simp add: linen_fields_def example_linen_order_def js_or_def getp_default_def
      linen_items_def item_count_def ToNumber_def StringToNumber_def trim_def is_ws_def
      signed_decimal_def unsigned_decimal_def is_exp_mark_def mantissa_of_def digits1_def digit_of_def)

lemma example_linen_order_created:
  "status (fst (post_linen_orders example_linen_order example_world)) = 201"
proof -
  obtain fs where fs: "linen_fields example_linen_order = Inr fs" using example_linen_fields by blast
  show ?thesis
    by (simp add: post_linen_orders_def create_document_def fs with_timestamps_def serverTimestamp_def
        example_world_def store_document_def firestore_add_def call_fails_def called_def Let_def)
qed

theorem post_linen_orders_pricing_witness:
  "status (fst (post_linen_orders example_linen_order example_world)) = 201
   \<and> getp (body (fst (post_linen_orders example_linen_order example_world))) ''pricing''
           = Inr (JObj [(''total'', JNum (Fin 45)),
                        (''breakdown'', JObj [(''pickup'', JNum (Fin 10)),
                                              (''processing'', JNum (Fin 25)),
                                              (''delivery'', JNum (Fin 10))]),
                        (''currency'', JStr ''AUD'')])"
  using post_linen_orders_pricing[OF prod.collapse[symmetric] example_linen_order_created]
    example_linen_order_created
  by (elim exE conjE) (rule conjI; assumption)

section \<open>Totals and breakdowns\<close>

lemma round_half_even_nonneg: "0 \<le> q \<Longrightarrow> 0 \<le> round_half_even q"
  by (simp add: round_half_even_def Let_def)

lemma fl_nonneg: "0 \<le> r \<Longrightarrow> nonneg (fl r)"
proof (cases "r = 0")
  case True
  then show ?thesis by (simp add: nonneg_def)
next
  case False
  assume "0 \<le> r"
  with False have pos: "0 < r" by simp
  define u where "u = pow2 (max (ilog2 \<bar>r\<bar>) (- 1022) - 52)"
  have "0 < u" by (simp add: u_def pow2_pos)
  with pos have "0 \<le> r / u" by simp
  then have "0 \<le> round_half_even (r / u)" by (rule round_half_even_nonneg)
  with \<open>0 < u\<close> have "0 \<le> of_int (round_half_even (r / u)) * u" by simp
  with pos False show ?thesis
    unfolding fl_def u_def[symmetric] Let_def by (simp add: nonneg_def)
qed

lemma js_add_nonneg: "nonneg a \<Longrightarrow> nonneg b \<Longrightarrow> nonneg (js_add a b)"
  by (cases a; cases b) (simp_all add: nonneg_def fl_nonneg[unfolded nonneg_def])

lemma js_mul_nonneg: "0 \<le> a \<Longrightarrow> 0 \<le> b \<Longrightarrow> nonneg (js_mul (Fin a) (Fin b))"
  by (simp add: fl_nonneg)

lemma nonneg_not_NaN: "nonneg n \<Longrightarrow> n \<noteq> NaN"
  by (auto simp: nonneg_def)

lemma or_zero_Fin [simp]: "or_zero (Fin r) = Fin r"
  by (simp add: or_zero_def)

lemma js_add_0_Fin: "js_add (Fin 0) (Fin 85) = Fin 85"
  by simp

lemma turnover_price_adds_up:
  assumes "isPositiveInt (JNum n)" "isPositiveInt (JNum m)" "turnover_price (JNum n) (JNum m) a = Inr p"
  shows "\<exists>t br. p = JObj [(''total'', JNum t), (''breakdown'', JObj br), (''currency'', JStr ''AUD'')]
           \<and> t \<noteq> NaN \<and> length (number_values br) = length br \<and> sum_values br = t"
proof -
  from assms(1) obtain x where x: "n = Fin x" "0 \<le> x" unfolding isPositiveInt_iff by blast
  from assms(2) obtain y where y: "m = Fin y" "0 \<le> y" unfolding isPositiveInt_iff by blast
  from turnover_price_Inr[OF assms(3)] obtain n' m' d l where
    n': "ToNumber (JNum n) = Inr n'" and m': "ToNumber (JNum m) = Inr m'"
    and d: "d = Fin 90 \<or> d = Fin 0" and l: "l = Fin 35 \<or> l = Fin 0"
    and p': "p = JObj [(''total'', JNum (js_add (js_add (js_add (js_add (Fin 85) (js_mul (or_zero n') (Fin 20)))
                                   (js_mul (or_zero m') (Fin 15))) d) l)),
                      (''breakdown'', JObj
                         [(''base'', JNum (Fin 85)),
                          (''bedroomsCost'', JNum (js_mul (or_zero n') (Fin 20))),
                          (''bathroomsCost'', JNum (js_mul (or_zero m') (Fin 15))),
                          (''deepClean'', JNum d),
                          (''premiumLinen'', JNum l)]),
                      (''currency'', JStr ''AUD'')]"
    by (elim exE conjE) (rule that; assumption)
  from n' m' have "n' = n" "m' = m" by simp_all
  note p = p'[unfolded this]
  let ?bc = "js_mul (or_zero n) (Fin 20)"
  let ?tc = "js_mul (or_zero m) (Fin 15)"
  let ?t = "js_add (js_add (js_add (js_add (Fin 85) ?bc) ?tc) d) l"
  let ?br = "[(''base'', JNum (Fin 85)), (''bedroomsCost'', JNum ?bc), (''bathroomsCost'', JNum ?tc),
              (''deepClean'', JNum d), (''premiumLinen'', JNum l)]"
  have nb: "nonneg ?bc" unfolding x or_zero_Fin using x(2) by (intro js_mul_nonneg) simp_all
  have nt: "nonneg ?tc" unfolding y or_zero_Fin using y(2) by (intro js_mul_nonneg) simp_all
  have nd: "nonneg d" using d by (auto simp: nonneg_def)
  have nl: "nonneg l" using l by (auto simp: nonneg_def)
  have n85: "nonneg (Fin 85)" by (simp add: nonneg_def)
  have "nonneg ?t" by (intro js_add_nonneg n85 nb nt nd nl)
  then have 1: "?t \<noteq> NaN" by (rule nonneg_not_NaN)
  have 2: "length (number_values ?br) = length ?br" by (simp add: number_values_def)
  have 3: "sum_values ?br = ?t" by (simp add: sum_values_def number_values_def)
  show ?thesis
    by (rule exI[of _ ?t], rule exI[of _ ?br], intro conjI; (rule p 1 2 3))
qed

lemma computed_pricing_adds_up:
  assumes "check_property property = Inr (address, nb, nc)"
    and "computeTurnoverPrice (JObj [(''bedrooms'', nb), (''bathrooms'', nc), (''addOns'', a)]) = Inr p"
  shows "\<exists>t br. p = JObj [(''total'', JNum t), (''breakdown'', JObj br), (''currency'', JStr ''AUD'')]
           \<and> t \<noteq> NaN \<and> length (number_values br) = length br \<and> sum_values br = t"
proof -
  from check_property_Inr[OF assms(1)] obtain n m where
    nb: "nb = JNum n" and nc: "nc = JNum m" and pn: "isPositiveInt (JNum n)" and pm: "isPositiveInt (JNum m)"
    by (elim exE conjE) (rule that; assumption)
  from assms(2) have "turnover_price (JNum n) (JNum m) (if a = JUndefined then JObj [] else a) = Inr p"
    unfolding computeTurnoverPrice_fields nb nc by simp
  from turnover_price_adds_up[OF pn pm this] show ?thesis .
qed

lemma post_quotes_adds_up:
  assumes "post_quotes b w = (r, w')" and "status r = 201"
  shows "pricing_adds_up (body r)"
proof -
  from post_quotes_created[OF assms] obtain fs created updated i where
    fs: "quote_fields b = Inr fs"
    and body: "body r = JObj (spread [(''ok'', JBool True), (''id'', JStr i)]
                            (fs @ [(''createdAt'', created), (''updatedAt'', updated)]))"
    by (elim exE conjE) (rule that; assumption)
  from quote_fields_Inr[OF fs] obtain h e ph pf prefs nts pricing property address nb nc addOns where
    shape: "fs = [(''hostName'', h), (''email'', e), (''phone'', ph), (''property'', pf),
                 (''preferences'', prefs), (''notes'', nts), (''pricing'', pricing),
                 (''currency'', JStr ''AUD''), (''status'', JStr ''quoted'')]"
    and checked: "check_property property = Inr (address, nb, nc)"
    and priced: "computeTurnoverPrice (JObj [(''bedrooms'', nb), (''bathrooms'', nc), (''addOns'', addOns)])
           = Inr pricing"
    by (elim exE conjE) (rule that; assumption)
  from computed_pricing_adds_up[OF checked priced] obtain t br where
    p: "pricing = JObj [(''total'', JNum t), (''breakdown'', JObj br), (''currency'', JStr ''AUD'')]"
    and ok: "t \<noteq> NaN" "length (number_values br) = length br" "sum_values br = t"
    by (elim exE conjE) (rule that; assumption)
  show ?thesis
    unfolding pricing_adds_up_def body shape p using ok by (simp add: spread_def)
qed

lemma post_linen_orders_adds_up:
  assumes "post_linen_orders b w = (r, w')" and "status r = 201"
  shows "pricing_adds_up (body r)"
proof -
  from post_linen_orders_created[OF assms] obtain fs created updated i where
    fs: "linen_fields b = Inr fs"
    and body: "body r = JObj (spread [(''ok'', JBool True), (''id'', JStr i)]
                            (fs @ [(''createdAt'', created), (''updatedAt'', updated)]))"
    by (elim exE conjE) (rule that; assumption)
  from linen_fields_Inr[OF fs] obtain j pf items sch nts where
    shape: "fs = [(''jobId'', j), (''property'', pf), (''items'', items), (''schedule'', sch),
                 (''pricing'', linen_pricing), (''currency'', JStr ''AUD''),
                 (''status'', JStr ''scheduled''), (''notes'', nts)]"
    by (elim exE conjE) (rule that; assumption)
  show ?thesis
    unfolding pricing_adds_up_def body shape
    by (simp add: spread_def linen_pricing_def pricing_consts sum_values_def number_values_def)
qed

lemma post_jobs_adds_up:
  assumes "post_jobs b w = (r, w')" and "status r = 201"
  shows "\<exists>price. getp (js_or b (JObj [])) ''price'' = Inr price
           \<and> (typeof price \<noteq> ''number'' \<longrightarrow> pricing_adds_up (body r))
           \<and> (typeof price = ''number'' \<longrightarrow>
                 getp (body r) ''pricing''
                 = Inr (JObj [(''total'', price),
                              (''breakdown'', JObj [(''customOverride'', price)]),
                              (''currency'', JStr ''AUD'')]))"
proof -
  from post_jobs_created[OF assms] obtain fs created updated i where
    fs: "job_fields b = Inr fs"
    and body: "body r = JObj (spread [(''ok'', JBool True), (''id'', JStr i)]
                            (fs @ [(''createdAt'', created), (''updatedAt'', updated)]))"
    by (elim exE conjE) (rule that; assumption)
  from job_fields_Inr[OF fs] obtain q sch pf flags pricing checklist nts price addOns property address nb nc
    where shape: "fs = [(''quoteId'', q), (''schedule'', sch), (''property'', pf), (''addOns'', flags),
                 (''pricing'', pricing), (''currency'', JStr ''AUD''), (''status'', JStr ''scheduled''),
                 (''checklist'', checklist), (''notes'', nts)]"
      and price: "getp (js_or b (JObj [])) ''price'' = Inr price"
      and checked: "check_property property = Inr (address, nb, nc)"
      and jp: "job_pricing price nb nc addOns = Inr pricing"
    by (elim exE conjE) (rule that; assumption)
  have got: "getp (body r) ''pricing'' = Inr pricing"
    unfolding body shape by (simp add: spread_def)
  have 1: "typeof price \<noteq> ''number'' \<longrightarrow> pricing_adds_up (body r)"
  proof
    assume "typeof price \<noteq> ''number''"
    with jp have "computeTurnoverPrice (JObj [(''bedrooms'', nb), (''bathrooms'', nc), (''addOns'', addOns)])
               = Inr pricing"
      by (simp add: job_pricing_def)
    from computed_pricing_adds_up[OF checked this] obtain t br where
      p: "pricing = JObj [(''total'', JNum t), (''breakdown'', JObj br), (''currency'', JStr ''AUD'')]"
      and ok: "t \<noteq> NaN" "length (number_values br) = length br" "sum_values br = t"
      by (elim exE conjE) (rule that; assumption)
    show "pricing_adds_up (body r)"
      unfolding pricing_adds_up_def got p using ok by simp
  qed
  have 2: "typeof price = ''number'' \<longrightarrow>
                 getp (body r) ''pricing''
                 = Inr (JObj [(''total'', price),
                              (''breakdown'', JObj [(''customOverride'', price)]),
                              (''currency'', JStr ''AUD'')])"
    unfolding got using jp by (auto simp: job_pricing_def pricing_consts)
  show ?thesis
    by (rule exI[of _ price], intro conjI; (rule price 1 2))
qed

text \<open>
  Claim C8. In every document that \<^verbatim>\<open>POST /quotes\<close>, \<^verbatim>\<open>POST /linen/orders\<close> or
  \<^verbatim>\<open>POST /jobs\<close> creates, \<^verbatim>\<open>pricing.total\<close> is a number, every value of
  \<^verbatim>\<open>pricing.breakdown\<close> is a number, and the total equals their sum; but a job created
  with a numeric \<^verbatim>\<open>price\<close> has the breakdown \<^verbatim>\<open>{customOverride: price}\<close> and the total
  \<^verbatim>\<open>price\<close>.
\<close>

theorem created_pricing_adds_up:
  "(post_quotes b w = (r, w') \<and> status r = 201 \<longrightarrow> pricing_adds_up (body r))
   \<and> (post_linen_orders b w = (r, w') \<and> status r = 201 \<longrightarrow> pricing_adds_up (body r))
   \<and> (post_jobs b w = (r, w') \<and> status r = 201 \<longrightarrow>
        (\<exists>price. getp (js_or b (JObj [])) ''price'' = Inr price
           \<and> (typeof price \<noteq> ''number'' \<longrightarrow> pricing_adds_up (body r))
           \<and> (typeof price = ''number'' \<longrightarrow>
                 getp (body r) ''pricing''
                 = Inr (JObj [(''total'', price),
                              (''breakdown'', JObj [(''customOverride'', price)]),
                              (''currency'', JStr ''AUD'')]))))"
  by (intro conjI impI; elim conjE; (erule (1) post_quotes_adds_up post_linen_orders_adds_up post_jobs_adds_up))

lemma example_quote_fields: "\<exists>fs. quote_fields example_quote = Inr fs"
  by (simp add: quote_fields_def example_quote_def example_property_def js_or_def getp_default_def
      check_property_def addOns_flags_def Let_def computeTurnoverPrice_fields turnover_price_def)

lemma example_quote_created: "status (fst (post_quotes example_quote example_world)) = 201"
proof -
  obtain fs where fs: "quote_fields example_quote = Inr fs" using example_quote_fields by blast
  show ?thesis
    by (simp add: post_quotes_def create_document_def fs with_timestamps_def serverTimestamp_def
        example_world_def store_document_def firestore_add_def call_fails_def called_def Let_def)
qed

theorem created_pricing_adds_up_witness:
  "status (fst (post_quotes example_quote example_world)) = 201
   \<and> pricing_adds_up (body (fst (post_quotes example_quote example_world)))
   \<and> status (fst (post_linen_orders example_linen_order example_world)) = 201
   \<and> pricing_adds_up (body (fst (post_linen_orders example_linen_order example_world)))
   \<and> status (fst (post_jobs example_job_computed example_world)) = 201
   \<and> pricing_adds_up (body (fst (post_jobs example_job_computed example_world)))
   \<and> status (fst (post_jobs example_job example_world)) = 201
   \<and> getp (body (fst (post_jobs example_job example_world))) ''pricing''
     = Inr (JObj [(''total'', JNum (Fin 200)),
                  (''breakdown'', JObj [(''customOverride'', JNum (Fin 200))]),
                  (''currency'', JStr ''AUD'')])"
proof -
  have q: "pricing_adds_up (body (fst (post_quotes example_quote example_world)))"
    using created_pricing_adds_up[of example_quote example_world
        "fst (post_quotes example_quote example_world)" "snd (post_quotes example_quote example_world)"]
      example_quote_created by simp
  have l: "pricing_adds_up (body (fst (post_linen_orders example_linen_order example_world)))"
    using created_pricing_adds_up[of example_linen_order example_world
        "fst (post_linen_orders example_linen_order example_world)"
        "snd (post_linen_orders example_linen_order example_world)"]
      example_linen_order_created by simp
  from created_pricing_adds_up[of example_job_computed example_world
        "fst (post_jobs example_job_computed example_world)"
        "snd (post_jobs example_job_computed example_world)"]
      example_job_computed_created
  obtain price where c1: "getp (js_or example_job_computed (JObj [])) ''price'' = Inr price"
    and c2: "typeof price \<noteq> ''number'' \<longrightarrow>
           pricing_adds_up (body (fst (post_jobs example_job_computed example_world)))"
    by simp (elim exE conjE, rule that; assumption)
  from c1 have "price = JUndefined" by (simp add: example_job_computed_def js_or_def)
  with c2 have c: "pricing_adds_up (body (fst (post_jobs example_job_computed example_world)))"
    by simp
  from created_pricing_adds_up[of example_job example_world
        "fst (post_jobs example_job example_world)" "snd (post_jobs example_job example_world)"]
      example_job_created
  obtain price where p1: "getp (js_or example_job (JObj [])) ''price'' = Inr price"
    and p2: "typeof price = ''number'' \<longrightarrow>
           getp (body (fst (post_jobs example_job example_world))) ''pricing''
           = Inr (JObj [(''total'', price),
                        (''breakdown'', JObj [(''customOverride'', price)]),
                        (''currency'', JStr ''AUD'')])"
    by simp (elim exE conjE, rule that; assumption)
  from p1 have "price = JNum (Fin 200)" by (simp add: example_job_def js_or_def)
  with p2 have o: "getp (body (fst (post_jobs example_job example_world))) ''pricing''
     = Inr (JObj [(''total'', JNum (Fin 200)),
                  (''breakdown'', JObj [(''customOverride'', JNum (Fin 200))]),
                  (''currency'', JStr ''AUD'')])"
    by simp
  show ?thesis
    using example_quote_created example_linen_order_created example_job_computed_created
      example_job_created q l c o by simp
qed

section \<open>Timestamps and documents that never change\<close>

lemma firestore_add_keeps:
  "docs w c' i' = Some x \<Longrightarrow> docs (snd (firestore_add c d w)) c' i' = Some x"
  by (auto simp: firestore_add_def Let_def called_def)

lemma serverTimestamp_docs [simp]: "docs (snd (serverTimestamp w)) = docs w"
  by (simp add: serverTimestamp_def read_clock_def)

lemma with_timestamps_docs [simp]: "docs (snd (with_timestamps fs w)) = docs w"
  by (simp add: with_timestamps_def Let_def split: prod.splits)
     (metis serverTimestamp_docs snd_conv)

lemma store_document_keeps:
  "docs w c' i' = Some x \<Longrightarrow> docs (snd (store_document c f data w)) c' i' = Some x"
  using firestore_add_keeps[of w c' i' x c "JObj data"]
  by (auto simp: store_document_def split: prod.splits sum.splits)

lemma create_document_keeps:
  assumes "docs w c' i' = Some x"
  shows "docs (snd (create_document c f checked w)) c' i' = Some x"
proof (cases checked)
  case (Inl e)
  then show ?thesis using assms by (cases e) (simp_all add: create_document_def)
next
  case (Inr fs)
  obtain data w1 where ts: "with_timestamps fs w = (data, w1)" by (cases "with_timestamps fs w")
  then have "docs w1 = docs w" using with_timestamps_docs[of fs w] by simp
  with assms have "docs w1 c' i' = Some x" by simp
  from store_document_keeps[OF this] show ?thesis
    using Inr ts by (simp add: create_document_def)
qed

lemma firestore_get_docs [simp]: "docs (snd (firestore_get c i w)) = docs w"
  by (simp add: firestore_get_def called_def)

lemma firestore_update_keeps:
  "c' \<noteq> c \<Longrightarrow> docs (snd (firestore_update c i u w)) c' = docs w c'"
  by (simp add: firestore_update_def called_def split: option.splits)

lemma write_checklist_keeps:
  assumes "c' \<noteq> ''jobs''"
  shows "docs (snd (write_checklist i u w)) c' = docs w c'"
proof -
  obtain stamp w1 where st: "serverTimestamp w = (stamp, w1)" by (cases "serverTimestamp w")
  then have w1: "docs w1 = docs w" using serverTimestamp_docs[of w] by simp
  obtain g w2 where g: "firestore_get ''jobs'' i w1 = (g, w2)" by (cases "firestore_get ''jobs'' i w1")
  then have w2: "docs w2 = docs w1" using firestore_get_docs[of "''jobs''" i w1] by simp
  obtain up w3 where up: "firestore_update ''jobs'' i (assign ''updatedAt'' stamp u) w2 = (up, w3)"
    by (cases "firestore_update ''jobs'' i (assign ''updatedAt'' stamp u) w2")
  then have w3: "docs w3 c' = docs w2 c'"
    using firestore_update_keeps[OF assms, of i "assign ''updatedAt'' stamp u" w2] by simp
  obtain g' w4 where g': "firestore_get ''jobs'' i w3 = (g', w4)" by (cases "firestore_get ''jobs'' i w3")
  then have w4: "docs w4 = docs w3" using firestore_get_docs[of "''jobs''" i w3] by simp
  show ?thesis
    using st g up g' w1 w2 w3 w4
    by (simp add: write_checklist_def split: sum.splits option.splits)
qed

lemma patch_checklist_keeps:
  assumes "c' \<noteq> ''jobs''"
  shows "docs (snd (patch_checklist i b w)) c' = docs w c'"
proof (cases "checklist_update b")
  case (Inl e)
  then show ?thesis by (cases e) (simp_all add: patch_checklist_def)
next
  case (Inr u)
  obtain res w1 where wc: "write_checklist i u w = (res, w1)" by (cases "write_checklist i u w")
  then have "docs w1 c' = docs w c'" using write_checklist_keeps[OF assms, of i u w] by simp
  then show ?thesis
    using Inr wc by (simp add: patch_checklist_def split: sum.splits)
qed

lemma get_document_docs [simp]: "docs (snd (get_document c m f i w)) = docs w"
proof -
  obtain g w1 where g: "firestore_get c i w = (g, w1)" by (cases "firestore_get c i w")
  then have "docs w1 = docs w" using firestore_get_docs[of c i w] by simp
  then show ?thesis
    using g by (simp add: get_document_def split: sum.splits option.splits)
qed

lemma handle_keeps:
  assumes "c \<noteq> ''jobs''" "docs w c i = Some x"
  shows "docs (snd (handle r w)) c i = Some x"
proof (cases r)
  case (PatchChecklist j b)
  then show ?thesis using patch_checklist_keeps[OF assms(1)] assms(2) by simp
qed (simp_all add: assms(2) post_quotes_def post_jobs_def post_linen_orders_def create_document_keeps
       get_quote_def get_job_def get_linen_order_def)

lemma serve_keeps:
  "c \<noteq> ''jobs'' \<Longrightarrow> docs w c i = Some x \<Longrightarrow> docs (serve rs w) c i = Some x"
  by (induction rs arbitrary: w) (simp_all add: handle_keeps)

lemma post_quotes_stamps:
  assumes "post_quotes b w = (r, w')" and "status r = 201" and "has_FieldValue_serverTimestamp w"
  shows "\<exists>j x. getp (body r) ''id'' = Inr (JStr j)
           \<and> getp (body r) ''createdAt'' = getp (body r) ''updatedAt''
           \<and> docs w' ''quotes'' j = Some x
           \<and> getp x ''createdAt'' = Inr (JTimestamp (server_time w))
           \<and> getp x ''updatedAt'' = Inr (JTimestamp (server_time w))"
proof -
  from post_quotes_created[OF assms(1,2)] obtain fs created updated i where
    fs: "quote_fields b = Inr fs"
    and body0: "body r = JObj (spread [(''ok'', JBool True), (''id'', JStr i)]
                            (fs @ [(''createdAt'', created), (''updatedAt'', updated)]))"
    and doc0: "docs w' ''quotes'' i = Some (resolve (server_time w)
                                 (JObj (fs @ [(''createdAt'', created), (''updatedAt'', updated)])))"
    and sentinel: "has_FieldValue_serverTimestamp w \<longrightarrow> created = JServerTimestamp \<and> updated = JServerTimestamp"
    by (elim exE conjE) (rule that; assumption)
  from sentinel assms(3) have cu: "created = JServerTimestamp" "updated = JServerTimestamp" by simp_all
  note body = body0[unfolded cu] and doc = doc0[unfolded cu]
  from quote_fields_Inr[OF fs] obtain h e ph pf prefs nts pricing where
    shape: "fs = [(''hostName'', h), (''email'', e), (''phone'', ph), (''property'', pf),
                 (''preferences'', prefs), (''notes'', nts), (''pricing'', pricing),
                 (''currency'', JStr ''AUD''), (''status'', JStr ''quoted'')]"
    by (elim exE conjE) (rule that; assumption)
  let ?x = "resolve (server_time w)
              (JObj (fs @ [(''createdAt'', JServerTimestamp), (''updatedAt'', JServerTimestamp)]))"
  have 1: "getp (body r) ''id'' = Inr (JStr i)"
    unfolding body shape by (simp add: spread_def)
  have 2: "getp (body r) ''createdAt'' = getp (body r) ''updatedAt''"
    unfolding body shape by (simp add: spread_def)
  have 3: "getp ?x ''createdAt'' = Inr (JTimestamp (server_time w))"
    unfolding shape by simp
  have 4: "getp ?x ''updatedAt'' = Inr (JTimestamp (server_time w))"
    unfolding shape by simp
  show ?thesis
    by (rule exI[of _ i], rule exI[of _ ?x], intro conjI; (rule 1 2 doc 3 4))
qed

lemma post_jobs_stamps:
  assumes "post_jobs b w = (r, w')" and "status r = 201" and "has_FieldValue_serverTimestamp w"
  shows "\<exists>j x. getp (body r) ''id'' = Inr (JStr j)
           \<and> getp (body r) ''createdAt'' = getp (body r) ''updatedAt''
           \<and> docs w' ''jobs'' j = Some x
           \<and> getp x ''createdAt'' = Inr (JTimestamp (server_time w))
           \<and> getp x ''updatedAt'' = Inr (JTimestamp (server_time w))"
proof -
  from post_jobs_created[OF assms(1,2)] obtain fs created updated i where
    fs: "job_fields b = Inr fs"
    and body0: "body r = JObj (spread [(''ok'', JBool True), (''id'', JStr i)]
                            (fs @ [(''createdAt'', created), (''updatedAt'', updated)]))"
    and doc0: "docs w' ''jobs'' i = Some (resolve (server_time w)
                                 (JObj (fs @ [(''createdAt'', created), (''updatedAt'', updated)])))"
    and sentinel: "has_FieldValue_serverTimestamp w \<longrightarrow> created = JServerTimestamp \<and> updated = JServerTimestamp"
    by (elim exE conjE) (rule that; assumption)
  from sentinel assms(3) have cu: "created = JServerTimestamp" "updated = JServerTimestamp" by simp_all
  note body = body0[unfolded cu] and doc = doc0[unfolded cu]
  from job_fields_Inr[OF fs] obtain q sch pf flags pricing checklist nts where
    shape: "fs = [(''quoteId'', q), (''schedule'', sch), (''property'', pf), (''addOns'', flags),
                 (''pricing'', pricing), (''currency'', JStr ''AUD''), (''status'', JStr ''scheduled''),
                 (''checklist'', checklist), (''notes'', nts)]"
    by (elim exE conjE) (rule that; assumption)
  let ?x = "resolve (server_time w)
              (JObj (fs @ [(''createdAt'', JServerTimestamp), (''updatedAt'', JServerTimestamp)]))"
  have 1: "getp (body r) ''id'' = Inr (JStr i)"
    unfolding body shape by (simp add: spread_def)
  have 2: "getp (body r) ''createdAt'' = getp (body r) ''updatedAt''"
    unfolding body shape by (simp add: spread_def)
  have 3: "getp ?x ''createdAt'' = Inr (JTimestamp (server_time w))"
    unfolding shape by simp
  have 4: "getp ?x ''updatedAt'' = Inr (JTimestamp (server_time w))"
    unfolding shape by simp
  show ?thesis
    by (rule exI[of _ i], rule exI[of _ ?x], intro conjI; (rule 1 2 doc 3 4))
qed

lemma post_linen_orders_stamps:
  assumes "post_linen_orders b w = (r, w')" and "status r = 201" and "has_FieldValue_serverTimestamp w"
  shows "\<exists>j x. getp (body r) ''id'' = Inr (JStr j)
           \<and> getp (body r) ''createdAt'' = getp (body r) ''updatedAt''
           \<and> docs w' ''linen_orders'' j = Some x
           \<and> getp x ''createdAt'' = Inr (JTimestamp (server_time w))
           \<and> getp x ''updatedAt'' = Inr (JTimestamp (server_time w))"
proof -
  from post_linen_orders_created[OF assms(1,2)] obtain fs created updated i where
    fs: "linen_fields b = Inr fs"
    and body0: "body r = JObj (spread [(''ok'', JBool True), (''id'', JStr i)]
                            (fs @ [(''createdAt'', created), (''updatedAt'', updated)]))"
    and doc0: "docs w' ''linen_orders'' i = Some (resolve (server_time w)
                                 (JObj (fs @ [(''createdAt'', created), (''updatedAt'', updated)])))"
    and sentinel: "has_FieldValue_serverTimestamp w \<longrightarrow> created = JServerTimestamp \<and> updated = JServerTimestamp"
    by (elim exE conjE) (rule that; assumption)
  from sentinel assms(3) have cu: "created = JServerTimestamp" "updated = JServerTimestamp" by simp_all
  note body = body0[unfolded cu] and doc = doc0[unfolded cu]
  from linen_fields_Inr[OF fs] obtain j pf items sch nts where
    shape: "fs = [(''jobId'', j), (''property'', pf), (''items'', items), (''schedule'', sch),
                 (''pricing'', linen_pricing), (''currency'', JStr ''AUD''),
                 (''status'', JStr ''scheduled''), (''notes'', nts)]"
    by (elim exE conjE) (rule that; assumption)
  let ?x = "resolve (server_time w)
              (JObj (fs @ [(''createdAt'', JServerTimestamp), (''updatedAt'', JServerTimestamp)]))"
  have 1: "getp (body r) ''id'' = Inr (JStr i)"
    unfolding body shape by (simp add: spread_def)
  have 2: "getp (body r) ''createdAt'' = getp (body r) ''updatedAt''"
    unfolding body shape by (simp add: spread_def)
  have 3: "getp ?x ''createdAt'' = Inr (JTimestamp (server_time w))"
    unfolding shape by simp
  have 4: "getp ?x ''updatedAt'' = Inr (JTimestamp (server_time w))"
    unfolding shape by simp
  show ?thesis
    by (rule exI[of _ i], rule exI[of _ ?x], intro conjI; (rule 1 2 doc 3 4))
qed

text \<open>
  Claim C9. With the admin SDK's \<^verbatim>\<open>FieldValue.serverTimestamp\<close>, every document that a
  creation handler creates has equal \<^verbatim>\<open>createdAt\<close> and \<^verbatim>\<open>updatedAt\<close>: both are the
  sentinel in the response, and the store writes its commit time for both. No request
  changes a document of \<^verbatim>\<open>quotes\<close> or \<^verbatim>\<open>linen_orders\<close> afterwards, so there the two
  stay equal whatever requests follow.
\<close>

theorem timestamps_equal:
  "(has_FieldValue_serverTimestamp w \<and> status r = 201
      \<and> (post_quotes b w = (r, w') \<and> c = ''quotes''
          \<or> post_jobs b w = (r, w') \<and> c = ''jobs''
          \<or> post_linen_orders b w = (r, w') \<and> c = ''linen_orders'')
    \<longrightarrow> (\<exists>j x. getp (body r) ''id'' = Inr (JStr j)
            \<and> getp (body r) ''createdAt'' = getp (body r) ''updatedAt''
            \<and> docs w' c j = Some x
            \<and> getp x ''createdAt'' = Inr (JTimestamp (server_time w))
            \<and> getp x ''updatedAt'' = Inr (JTimestamp (server_time w))))
   \<and> ((c = ''quotes'' \<or> c = ''linen_orders'') \<and> docs w c i = Some d
        \<longrightarrow> docs (serve rs w) c i = Some d)"
proof (intro conjI impI)
  assume a: "has_FieldValue_serverTimestamp w \<and> status r = 201
      \<and> (post_quotes b w = (r, w') \<and> c = ''quotes''
          \<or> post_jobs b w = (r, w') \<and> c = ''jobs''
          \<or> post_linen_orders b w = (r, w') \<and> c = ''linen_orders'')"
  then have fv: "has_FieldValue_serverTimestamp w" and st: "status r = 201" by simp_all
  from a consider "post_quotes b w = (r, w')" "c = ''quotes''"
    | "post_jobs b w = (r, w')" "c = ''jobs''"
    | "post_linen_orders b w = (r, w')" "c = ''linen_orders''"
    by blast
  then show "\<exists>j x. getp (body r) ''id'' = Inr (JStr j)
            \<and> getp (body r) ''createdAt'' = getp (body r) ''updatedAt''
            \<and> docs w' c j = Some x
            \<and> getp x ''createdAt'' = Inr (JTimestamp (server_time w))
            \<and> getp x ''updatedAt'' = Inr (JTimestamp (server_time w))"
  proof cases
    case 1
    show ?thesis unfolding 1(2) by (rule post_quotes_stamps[OF 1(1) st fv])
  next
    case 2
    show ?thesis unfolding 2(2) by (rule post_jobs_stamps[OF 2(1) st fv])
  next
    case 3
    show ?thesis unfolding 3(2) by (rule post_linen_orders_stamps[OF 3(1) st fv])
  qed
next
  assume a: "(c = ''quotes'' \<or> c = ''linen_orders'') \<and> docs w c i = Some d"
  then have "c \<noteq> ''jobs''" by auto
  with a show "docs (serve rs w) c i = Some d" by (simp add: serve_keeps)
qed

theorem timestamps_equal_witness:
  "has_FieldValue_serverTimestamp example_world
   \<and> status (fst (post_quotes example_quote example_world)) = 201
   \<and> (\<exists>j x. docs (snd (post_quotes example_quote example_world)) ''quotes'' j = Some x
          \<and> getp x ''createdAt'' = Inr (JTimestamp 1000)
          \<and> getp x ''updatedAt'' = Inr (JTimestamp 1000)
          \<and> docs (serve [PostQuotes example_quote,
                          PatchChecklist j (JObj [(''floorsDone'', JBool True)]),
                          GetQuote j]
                     (snd (post_quotes example_quote example_world))) ''quotes'' j = Some x)"
proof -
  let ?w = "snd (post_quotes example_quote example_world)"
  have fv: "has_FieldValue_serverTimestamp example_world" by (simp add: example_world_def)
  have t: "server_time example_world = 1000" by (simp add: example_world_def)
  have created: "has_FieldValue_serverTimestamp example_world
      \<and> status (fst (post_quotes example_quote example_world)) = 201
      \<and> (post_quotes example_quote example_world = (fst (post_quotes example_quote example_world), ?w)
            \<and> ''quotes'' = ''quotes''
          \<or> post_jobs example_quote example_world = (fst (post_quotes example_quote example_world), ?w)
            \<and> ''quotes'' = ''jobs''
          \<or> post_linen_orders example_quote example_world = (fst (post_quotes example_quote example_world), ?w)
            \<and> ''quotes'' = ''linen_orders'')"
    using fv example_quote_created by simp
  from timestamps_equal[where w = example_world and r = "fst (post_quotes example_quote example_world)"
      and b = example_quote and w' = ?w and c = "''quotes''" and i = "''none''" and d = JNull and rs = "[]",
      THEN conjunct1, THEN mp, OF created]
  obtain j x where x: "docs ?w ''quotes'' j = Some x"
    and c: "getp x ''createdAt'' = Inr (JTimestamp (server_time example_world))"
    and u: "getp x ''updatedAt'' = Inr (JTimestamp (server_time example_world))"
    by (elim exE conjE) (rule that; assumption)
  have k: "docs (serve [PostQuotes example_quote,
                          PatchChecklist j (JObj [(''floorsDone'', JBool True)]),
                          GetQuote j] ?w) ''quotes'' j = Some x"
    by (rule timestamps_equal[where c = "''quotes''" and w = ?w and i = j and d = x
          and w' = ?w and b = JNull and r = "sendError 400 []", THEN conjunct2, THEN mp])
       (simp add: x)
  note c = c[unfolded t] and u = u[unfolded t]
  show ?thesis
    by (intro conjI fv example_quote_created, rule exI[of _ j], rule exI[of _ x], intro conjI; (rule x c u k))
qed

section \<open>Checklist updates\<close>

lemma collect_update_filter:
  "collect_update (filter (\<lambda>kv. fst kv \<in> set allowedKeys) kvs) u h = collect_update kvs u h"
  by (induction kvs arbitrary: u h) auto

lemma collect_update_invalid:
  "find not_boolean_field kvs = Some (k, v) \<Longrightarrow>
   collect_update kvs u h = Inl (Respond (sendError 400 (''Checklist field '' @ k @ '' must be boolean'')))"
proof (induction kvs arbitrary: u h)
  case Nil
  then show ?case by simp
next
  case (Cons kv kvs)
  obtain k' v' where kv: "kv = (k', v')" by (cases kv)
  show ?case
  proof (cases "not_boolean_field kv")
    case True
    with Cons.prems kv have "k' = k" "v' = v" by simp_all
    with True kv show ?thesis by (simp add: not_boolean_field_def)
  next
    case False
    with Cons.prems have "find not_boolean_field kvs = Some (k, v)" by simp
    from Cons.IH[OF this] False kv show ?thesis by (auto simp: not_boolean_field_def)
  qed
qed

lemma collect_update_unrecognised:
  "\<forall>kv\<in>set kvs. fst kv \<notin> set allowedKeys \<Longrightarrow> collect_update kvs u h = Inr (u, h)"
  by (induction kvs arbitrary: u h) auto

lemma entries_object:
  assumes "body_entries b \<noteq> []"
  shows "truthy (js_or b (JObj [])) \<and> typeof (js_or b (JObj [])) = ''object''"
  using assms by (cases b) (auto simp: body_entries_def Object_entries_def js_or_def split: if_splits)

lemma checklist_update_invalid:
  assumes "find not_boolean_field (body_entries b) = Some (k, v)"
  shows "checklist_update b = Inl (Respond (sendError 400 (''Checklist field '' @ k @ '' must be boolean'')))"
proof -
  from assms have "body_entries b \<noteq> []" by auto
  from entries_object[OF this] collect_update_invalid[OF assms, of "[]" False]
  show ?thesis by (simp add: checklist_update_def Let_def body_entries_def)
qed

lemma checklist_update_unrecognised:
  assumes "\<forall>kv\<in>set (body_entries b). fst kv \<notin> set allowedKeys"
  shows "\<exists>r. checklist_update b = Inl (Respond r) \<and> status r = 400"
  using collect_update_unrecognised[OF assms, of "[]" False]
  by (cases "truthy (js_or b (JObj [])) \<and> typeof (js_or b (JObj [])) = ''object''")
     (auto simp: checklist_update_def Let_def body_entries_def)

lemma patch_checklist_rejected:
  "checklist_update b = Inl (Respond r) \<Longrightarrow> patch_checklist i b w = (r, w)"
  by (simp add: patch_checklist_def)

lemma checklist_update_filter:
  "checklist_update (JObj (filter (\<lambda>kv. fst kv \<in> set allowedKeys) kvs)) = checklist_update (JObj kvs)"
  by (simp add: checklist_update_def js_or_def Object_entries_def collect_update_filter)

lemma find_not_boolean_field:
  "\<exists>kv\<in>set kvs. not_boolean_field kv \<Longrightarrow> \<exists>k v. find not_boolean_field kvs = Some (k, v)"
  by (induction kvs) auto

text \<open>
  Claim C6. For every body of a checklist update: the keys outside the seven recognised
  names are ignored (the handler does the same with and without them); if a recognised
  key has a value that is not a boolean, the request fails with the 400 that names the
  first such key, and the world, with every stored document, is as before; if no key is
  recognised, the request fails with a 400 and the world is as before.
\<close>

theorem patch_checklist_body:
  "patch_checklist i (JObj (filter (\<lambda>kv. fst kv \<in> set allowedKeys) kvs)) w = patch_checklist i (JObj kvs) w
   \<and> ((\<exists>kv\<in>set (body_entries b). not_boolean_field kv) \<longrightarrow>
        (\<exists>k v. find not_boolean_field (body_entries b) = Some (k, v)
           \<and> patch_checklist i b w
             = (sendError 400 (''Checklist field '' @ k @ '' must be boolean''), w)))
   \<and> ((\<forall>kv\<in>set (body_entries b). fst kv \<notin> set allowedKeys) \<longrightarrow>
        status (fst (patch_checklist i b w)) = 400 \<and> snd (patch_checklist i b w) = w)"
proof (intro conjI impI)
  show "patch_checklist i (JObj (filter (\<lambda>kv. fst kv \<in> set allowedKeys) kvs)) w = patch_checklist i (JObj kvs) w"
    by (simp add: patch_checklist_def checklist_update_filter)
next
  assume "\<exists>kv\<in>set (body_entries b). not_boolean_field kv"
  from find_not_boolean_field[OF this] obtain k v where
    f: "find not_boolean_field (body_entries b) = Some (k, v)" by blast
  from patch_checklist_rejected[OF checklist_update_invalid[OF f]]
  have "patch_checklist i b w = (sendError 400 (''Checklist field '' @ k @ '' must be boolean''), w)" .
  with f show "\<exists>k v. find not_boolean_field (body_entries b) = Some (k, v)
           \<and> patch_checklist i b w
             = (sendError 400 (''Checklist field '' @ k @ '' must be boolean''), w)"
    by blast
next
  assume a: "\<forall>kv\<in>set (body_entries b). fst kv \<notin> set allowedKeys"
  from checklist_update_unrecognised[OF a] obtain r where
    r: "checklist_update b = Inl (Respond r)" "status r = 400" by blast
  from patch_checklist_rejected[OF r(1)] r(2)
  show "status (fst (patch_checklist i b w)) = 400" and "snd (patch_checklist i b w) = w" by simp_all
qed

lemma example_entries [simp]:
  "body_entries (JObj kvs) = kvs"
  by (simp add: body_entries_def js_or_def Object_entries_def)

theorem patch_checklist_body_witness:
  "patch_checklist ''doc0'' (JObj [(''bathroomsDone'', JBool True)]) example_world
   = patch_checklist ''doc0'' (JObj [(''bathroomsDone'', JBool True), (''unknownField'', JStr ''x'')]) example_world
   \<and> (\<exists>kv\<in>set (body_entries (JObj [(''floorsDone'', JStr ''yes'')])). not_boolean_field kv)
   \<and> patch_checklist ''doc0'' (JObj [(''floorsDone'', JStr ''yes'')]) example_world
     = (sendError 400 ''Checklist field floorsDone must be boolean'', example_world)
   \<and> filter (\<lambda>kv. fst kv \<in> set allowedKeys) (body_entries (JObj [(''unknownField'', JStr ''x'')])) = []
   \<and> status (fst (patch_checklist ''doc0'' (JObj [(''unknownField'', JStr ''x'')]) example_world)) = 400
   \<and> snd (patch_checklist ''doc0'' (JObj [(''unknownField'', JStr ''x'')]) example_world) = example_world"
proof -
  have f: "filter (\<lambda>kv. fst kv \<in> set allowedKeys) [(''bathroomsDone'', JBool True), (''unknownField'', JStr ''x'')]
           = [(''bathroomsDone'', JBool True)]"
    by (simp add: allowedKeys_def)
  have 1: "patch_checklist ''doc0'' (JObj [(''bathroomsDone'', JBool True)]) example_world
   = patch_checklist ''doc0'' (JObj [(''bathroomsDone'', JBool True), (''unknownField'', JStr ''x'')]) example_world"
    using patch_checklist_body[where kvs = "[(''bathroomsDone'', JBool True), (''unknownField'', JStr ''x'')]"
        and i = "''doc0''" and w = example_world and b = JNull, THEN conjunct1]
    unfolding f .
  have a: "\<exists>kv\<in>set (body_entries (JObj [(''floorsDone'', JStr ''yes'')])). not_boolean_field kv"
    by (simp add: not_boolean_field_def allowedKeys_def)
  from patch_checklist_body[where b = "JObj [(''floorsDone'', JStr ''yes'')]" and kvs = "[]"
        and i = "''doc0''" and w = example_world, THEN conjunct2, THEN conjunct1, THEN mp, OF a]
  have 2: "patch_checklist ''doc0'' (JObj [(''floorsDone'', JStr ''yes'')]) example_world
     = (sendError 400 ''Checklist field floorsDone must be boolean'', example_world)"
    by (simp add: not_boolean_field_def allowedKeys_def)
  have b: "\<forall>kv\<in>set (body_entries (JObj [(''unknownField'', JStr ''x'')])). fst kv \<notin> set allowedKeys"
    by (simp add: allowedKeys_def)
  note 3 = patch_checklist_body[where b = "JObj [(''unknownField'', JStr ''x'')]" and kvs = "[]"
        and i = "''doc0''" and w = example_world, THEN conjunct2, THEN conjunct2, THEN mp, OF b]
  have b': "filter (\<lambda>kv. fst kv \<in> set allowedKeys) (body_entries (JObj [(''unknownField'', JStr ''x'')])) = []"
    by (simp add: allowedKeys_def)
  show ?thesis
    by (intro conjI 1 a 2 b' 3[THEN conjunct1] 3[THEN conjunct2])
qed

lemma serverTimestamp_store:
  "calls (snd (serverTimestamp w)) = calls w"
  "fails_at (snd (serverTimestamp w)) = fails_at w"
  by (simp_all add: serverTimestamp_def read_clock_def)

lemma write_checklist_missing:
  assumes "docs w ''jobs'' i = None" and "\<not> call_fails w"
  shows "write_checklist i u w = (Inr (sendError 404 ''Job not found''), called (Get ''jobs'' i) (snd (serverTimestamp w)))"
proof -
  obtain stamp w1 where st: "serverTimestamp w = (stamp, w1)" by (cases "serverTimestamp w")
  then have w1: "docs w1 = docs w" "calls w1 = calls w" "fails_at w1 = fails_at w"
    using serverTimestamp_docs[of w] serverTimestamp_store[of w] by simp_all
  then have "firestore_get ''jobs'' i w1 = (Inr None, called (Get ''jobs'' i) w1)"
    using assms by (simp add: firestore_get_def call_fails_def)
  then show ?thesis using st by (simp add: write_checklist_def)
qed

text \<open>
  Claim C10. The body is checked before the document is looked up: a body with a
  recognised key whose value is not a boolean, or with no recognised key, is answered
  400 for every id and every world (so also for an id without a document), and the store
  is neither called nor changed. A body that passes the check, for an id without a
  document and with a store that answers, reads the store once and is answered 404.
\<close>

theorem patch_checklist_validates_first:
  "((\<exists>kv\<in>set (body_entries b). not_boolean_field kv)
      \<or> (\<forall>kv\<in>set (body_entries b). fst kv \<notin> set allowedKeys)
    \<longrightarrow> status (fst (patch_checklist i b w)) = 400
        \<and> calls (snd (patch_checklist i b w)) = calls w
        \<and> docs (snd (patch_checklist i b w)) = docs w)
   \<and> (checklist_update b = Inr u \<and> docs w ''jobs'' i = None \<and> \<not> call_fails w
    \<longrightarrow> status (fst (patch_checklist i b w)) = 404
        \<and> calls (snd (patch_checklist i b w)) = calls w @ [Get ''jobs'' i])"
proof (intro conjI impI)
  assume "(\<exists>kv\<in>set (body_entries b). not_boolean_field kv)
      \<or> (\<forall>kv\<in>set (body_entries b). fst kv \<notin> set allowedKeys)"
  then have "\<exists>r. checklist_update b = Inl (Respond r) \<and> status r = 400"
  proof
    assume "\<exists>kv\<in>set (body_entries b). not_boolean_field kv"
    from find_not_boolean_field[OF this] obtain k v where
      "find not_boolean_field (body_entries b) = Some (k, v)" by blast
    from checklist_update_invalid[OF this] show ?thesis by simp
  next
    assume "\<forall>kv\<in>set (body_entries b). fst kv \<notin> set allowedKeys"
    then show ?thesis by (rule checklist_update_unrecognised)
  qed
  then obtain r where r: "checklist_update b = Inl (Respond r)" "status r = 400" by blast
  from patch_checklist_rejected[OF r(1)] r(2)
  show "status (fst (patch_checklist i b w)) = 400"
    and "calls (snd (patch_checklist i b w)) = calls w"
    and "docs (snd (patch_checklist i b w)) = docs w" by simp_all
next
  assume a: "checklist_update b = Inr u \<and> docs w ''jobs'' i = None \<and> \<not> call_fails w"
  then have "write_checklist i u w
             = (Inr (sendError 404 ''Job not found''), called (Get ''jobs'' i) (snd (serverTimestamp w)))"
    by (simp add: write_checklist_missing)
  with a have p: "patch_checklist i b w
             = (sendError 404 ''Job not found'', called (Get ''jobs'' i) (snd (serverTimestamp w)))"
    by (simp add: patch_checklist_def)
  show "status (fst (patch_checklist i b w)) = 404" unfolding p by simp
  show "calls (snd (patch_checklist i b w)) = calls w @ [Get ''jobs'' i]"
    unfolding p by (simp add: called_def serverTimestamp_store)
qed

theorem patch_checklist_validates_first_witness:
  "(\<exists>kv\<in>set (body_entries (JObj [(''floorsDone'', JStr ''yes'')])). not_boolean_field kv)
   \<and> docs example_world ''jobs'' ''missing'' = None
   \<and> status (fst (patch_checklist ''missing'' (JObj [(''floorsDone'', JStr ''yes'')]) example_world)) = 400
   \<and> calls (snd (patch_checklist ''missing'' (JObj [(''floorsDone'', JStr ''yes'')]) example_world)) = []
   \<and> checklist_update (JObj [(''floorsDone'', JBool True)]) = Inr [(''checklist.floorsDone'', JBool True)]
   \<and> \<not> call_fails example_world
   \<and> status (fst (patch_checklist ''missing'' (JObj [(''floorsDone'', JBool True)]) example_world)) = 404
   \<and> calls (snd (patch_checklist ''missing'' (JObj [(''floorsDone'', JBool True)]) example_world))
     = [Get ''jobs'' ''missing'']"
proof -
  have a: "\<exists>kv\<in>set (body_entries (JObj [(''floorsDone'', JStr ''yes'')])). not_boolean_field kv"
    by (simp add: not_boolean_field_def allowedKeys_def)
  have d: "docs example_world ''jobs'' ''missing'' = None" by (simp add: example_world_def)
  have c: "calls example_world = []" by (simp add: example_world_def)
  have u: "checklist_update (JObj [(''floorsDone'', JBool True)]) = Inr [(''checklist.floorsDone'', JBool True)]"
    by (simp add: checklist_update_def js_or_def Object_entries_def allowedKeys_def)
  have nf: "\<not> call_fails example_world" by (simp add: call_fails_def example_world_def)
  note 1 = patch_checklist_validates_first[where b = "JObj [(''floorsDone'', JStr ''yes'')]"
      and i = "''missing''" and w = example_world and u = "[]", THEN conjunct1, THEN mp, OF disjI1, OF a,
      unfolded c]
  have v: "checklist_update (JObj [(''floorsDone'', JBool True)]) = Inr [(''checklist.floorsDone'', JBool True)]
           \<and> docs example_world ''jobs'' ''missing'' = None \<and> \<not> call_fails example_world"
    using u d nf by simp
  note 2 = patch_checklist_validates_first[where b = "JObj [(''floorsDone'', JBool True)]"
      and i = "''missing''" and w = example_world and u = "[(''checklist.floorsDone'', JBool True)]",
      THEN conjunct2, THEN mp, OF v, unfolded c append_Nil]
  show ?thesis
    by (intro conjI a d 1[THEN conjunct1] 1[THEN conjunct2, THEN conjunct1] u nf 2[THEN conjunct1] 2[THEN conjunct2])
qed

subsection \<open>A body that is an array\<close>

lemma index_key_digits:
  "index_key n \<noteq> [] \<and> (\<forall>c\<in>set (index_key n). 48 \<le> (of_char c :: nat) \<and> (of_char c :: nat) \<le> 57)"
proof (induction n rule: index_key.induct)
  case (1 n)
  have digit: "48 \<le> (of_char (char_of (48 + m)) :: nat) \<and> (of_char (char_of (48 + m)) :: nat) \<le> 57"
    if "m < 10" for m :: nat
    using that by simp
  show ?case
  proof (cases "n < 10")
    case True
    then show ?thesis using digit[of n] by (subst (1 2) index_key.simps) simp
  next
    case False
    have "n mod 10 < 10" by simp
    from digit[OF this] 1[OF False] False show ?thesis
      by (subst (1 2) index_key.simps) simp
  qed
qed

lemma index_key_not_allowed: "index_key n \<notin> set allowedKeys"
proof
  assume a: "index_key n \<in> set allowedKeys"
  from index_key_digits[of n] obtain c cs where c: "index_key n = c # cs" "(of_char c :: nat) \<le> 57"
    by (cases "index_key n") auto
  from a c(1) have "c \<in> set ''bkftlrp''" by (auto simp: allowedKeys_def)
  with c(2) show False by auto
qed

lemma array_entries_unrecognised:
  "\<forall>kv\<in>set (body_entries (JArr xs)). fst kv \<notin> set allowedKeys"
proof
  fix kv assume "kv \<in> set (body_entries (JArr xs))"
  then have z: "kv \<in> set (zip (map index_key [0..<length xs]) xs)"
    by (simp add: body_entries_def js_or_def Object_entries_def)
  obtain k v where kv: "kv = (k, v)" by (cases kv)
  from z have "(k, v) \<in> set (zip (map index_key [0..<length xs]) xs)" unfolding kv .
  then have "k \<in> set (map index_key [0..<length xs])" by (rule set_zip_leftD)
  then show "fst kv \<notin> set allowedKeys" using index_key_not_allowed kv by auto
qed

lemma patch_checklist_array:
  "patch_checklist i (JArr xs) w = (sendError 400 ''No valid checklist fields provided'', w)"
  using collect_update_unrecognised[OF array_entries_unrecognised[of xs], of "[]" False]
  by (simp add: patch_checklist_def checklist_update_def js_or_def body_entries_def)

end
